theory Spec2Isabelle
  imports Main "HOL-Library.Word" "HOL-Library.AList"
begin

section \<open>Go strings at byte level\<close>

text \<open>
  A Go string is a sequence of bytes, here a \<^typ>\<open>string\<close>. The functions of package
  \<^verbatim>\<open>strings\<close> that the playbook engine calls are written out on bytes. Those that
  look at Unicode white space (\<^verbatim>\<open>TrimSpace\<close>, \<^verbatim>\<open>Fields\<close>) know the UTF-8
  encodings of the code points of \<^verbatim>\<open>unicode.IsSpace\<close>.
\<close>

definition HasPrefix :: "string \<Rightarrow> string \<Rightarrow> bool" where
  "HasPrefix s p = (take (length p) s = p)"

definition HasSuffix :: "string \<Rightarrow> string \<Rightarrow> bool" where
  "HasSuffix s p = (length p \<le> length s \<and> drop (length s - length p) s = p)"

text \<open>\<^verbatim>\<open>strings.Index\<close>: the byte offset of the first occurrence, or \<open>-1\<close>.\<close>

fun Index :: "string \<Rightarrow> string \<Rightarrow> int" where
  "Index [] sub = (if sub = [] then 0 else -1)"
| "Index (c # s) sub =
     (if HasPrefix (c # s) sub then 0
      else (let r = Index s sub in if r < 0 then -1 else r + 1))"

definition Contains :: "string \<Rightarrow> string \<Rightarrow> bool" where
  "Contains s sub = (0 \<le> Index s sub)"

text \<open>\<^verbatim>\<open>strings.LastIndex\<close>: the byte offset of the last occurrence, or \<open>-1\<close>.\<close>

fun LastIndex :: "string \<Rightarrow> string \<Rightarrow> int" where
  "LastIndex [] sub = (if sub = [] then 0 else -1)"
| "LastIndex (c # s) sub =
     (let r = LastIndex s sub in
      if 0 \<le> r then r + 1
      else if HasPrefix (c # s) sub then 0 else -1)"

text \<open>The white space of \<^verbatim>\<open>unicode.IsSpace\<close>, each code point in UTF-8.\<close>

definition asciiSpace :: "char list" where
  "asciiSpace = [CHR 0x09, CHR 0x0A, CHR 0x0B, CHR 0x0C, CHR 0x0D, CHR 0x20]"

definition unicodeSpaces :: "string list" where
  "unicodeSpaces =
     map (\<lambda>c. [c]) asciiSpace @
     [[CHR 0xC2, CHR 0x85], [CHR 0xC2, CHR 0xA0], [CHR 0xE1, CHR 0x9A, CHR 0x80]] @
     map (\<lambda>c. [CHR 0xE2, CHR 0x80, c])
       [CHR 0x80, CHR 0x81, CHR 0x82, CHR 0x83, CHR 0x84, CHR 0x85, CHR 0x86, CHR 0x87,
        CHR 0x88, CHR 0x89, CHR 0x8A, CHR 0xA8, CHR 0xA9, CHR 0xAF] @
     [[CHR 0xE2, CHR 0x81, CHR 0x9F], [CHR 0xE3, CHR 0x80, CHR 0x80]]"

text \<open>The number of bytes of the white-space code point a string starts or ends with
  (0 when it starts or ends with none).\<close>

definition leadingSpace :: "string \<Rightarrow> nat" where
  "leadingSpace s = (case filter (HasPrefix s) unicodeSpaces of [] \<Rightarrow> 0 | w # _ \<Rightarrow> length w)"

definition trailingSpace :: "string \<Rightarrow> nat" where
  "trailingSpace s = (case filter (HasSuffix s) unicodeSpaces of [] \<Rightarrow> 0 | w # _ \<Rightarrow> length w)"

function TrimLeftSpace :: "string \<Rightarrow> string" where
  "TrimLeftSpace s =
     (if leadingSpace s = 0 \<or> length s < leadingSpace s then s
      else TrimLeftSpace (drop (leadingSpace s) s))"
  by pat_completeness auto
termination
  by (relation "measure length") auto

function TrimRightSpace :: "string \<Rightarrow> string" where
  "TrimRightSpace s =
     (if trailingSpace s = 0 \<or> length s < trailingSpace s then s
      else TrimRightSpace (take (length s - trailingSpace s) s))"
  by pat_completeness auto
termination
  by (relation "measure length") auto

definition TrimSpace :: "string \<Rightarrow> string" where
  "TrimSpace s = TrimRightSpace (TrimLeftSpace s)"

text \<open>\<^verbatim>\<open>strings.Trim(s, cutset)\<close> for a cutset of ASCII bytes.\<close>

definition Trim :: "string \<Rightarrow> string \<Rightarrow> string" where
  "Trim s cutset =
     rev (dropWhile (\<lambda>c. c \<in> set cutset) (rev (dropWhile (\<lambda>c. c \<in> set cutset) s)))"

definition TrimSuffix :: "string \<Rightarrow> string \<Rightarrow> string" where
  "TrimSuffix s suffix = (if HasSuffix s suffix then take (length s - length suffix) s else s)"

text \<open>\<^verbatim>\<open>strings.SplitN(s, sep, 2)\<close> for a non-empty separator: the text before the first
  occurrence and the text after it, or the whole string alone.\<close>

definition SplitN2 :: "string \<Rightarrow> string \<Rightarrow> string list" where
  "SplitN2 s sep =
     (let i = Index s sep in
      if i < 0 then [s] else [take (nat i) s, drop (nat i + length sep) s])"

text \<open>\<^verbatim>\<open>strings.Split(s, sep)\<close> for a separator of one byte.\<close>

fun Split :: "string \<Rightarrow> char \<Rightarrow> string list" where
  "Split [] sep = [[]]"
| "Split (c # s) sep =
     (if c = sep then [] # Split s sep
      else (case Split s sep of [] \<Rightarrow> [[c]] | p # ps \<Rightarrow> (c # p) # ps))"

text \<open>\<^verbatim>\<open>strings.Join\<close>.\<close>

fun Join :: "string list \<Rightarrow> string \<Rightarrow> string" where
  "Join [] sep = []"
| "Join [p] sep = p"
| "Join (p # ps) sep = p @ sep @ Join ps sep"

text \<open>\<^verbatim>\<open>strings.Fields\<close>: the maximal runs of bytes between white space. The second
  argument is the field being read.\<close>

function fieldsFrom :: "string \<Rightarrow> string \<Rightarrow> string list" where
  "fieldsFrom s cur =
     (if s = [] then (if cur = [] then [] else [cur])
      else if leadingSpace s = 0 \<or> length s < leadingSpace s
        then fieldsFrom (tl s) (cur @ [hd s])
      else (if cur = [] then [] else [cur]) @ fieldsFrom (drop (leadingSpace s) s) [])"
  by pat_completeness auto
termination
  by (relation "measure (\<lambda>(s, cur). length s)") auto

declare fieldsFrom.simps [simp del]

definition Fields :: "string \<Rightarrow> string list" where
  "Fields s = fieldsFrom s []"

section \<open>Dynamic values\<close>

text \<open>
  A value of Go's \<^verbatim>\<open>any\<close>, by dynamic type: \<^verbatim>\<open>nil\<close>, \<^verbatim>\<open>bool\<close>, \<^verbatim>\<open>string\<close>,
  \<^verbatim>\<open>int\<close>, \<^verbatim>\<open>int64\<close>, \<^verbatim>\<open>float64\<close> (its IEEE 754 bits), \<^verbatim>\<open>[]any\<close>,
  \<^verbatim>\<open>map[string]any\<close>, \<^verbatim>\<open>map[string]string\<close>. A value of any other type is kept as
  the text \<^verbatim>\<open>%v\<close> prints for it, which is all the engine ever asks of it. A map is an
  association list; the engine reads it by key only, except where noted.
  Equality of two interface values is equality of dynamic type and value, hence the
  equality of this datatype.
\<close>

datatype val =
    VNil
  | VBool bool
  | VStr string
  | VInt int
  | VInt64 int
  | VFloat "64 word"
  | VList "val list"
  | VMap "(string \<times> val) list"
  | VStrMap "(string \<times> string) list"
  | VOther string

type_synonym params = "(string \<times> val) list"

text \<open>
  What the engine takes from the Go library without this theory writing it out: the
  \<^verbatim>\<open>%v\<close> text of a \<^verbatim>\<open>float64\<close>, the conversion \<^verbatim>\<open>int(f)\<close> of a
  \<^verbatim>\<open>float64\<close>, Unicode case mapping, and \<^verbatim>\<open>fmt.Sscanf(s, "%d", &i)\<close> (the value
  left in \<open>i\<close>). Every function below that needs one of them takes the record.
\<close>

record golib =
  fmtFloat :: "64 word \<Rightarrow> string"
  floatToInt :: "64 word \<Rightarrow> int"
  ToLower :: "string \<Rightarrow> string"
  ToUpper :: "string \<Rightarrow> string"
  sscanInt :: "string \<Rightarrow> int"

subsection \<open>Default formatting\<close>

definition digitChar :: "nat \<Rightarrow> char" where
  "digitChar d = ''0123456789'' ! d"

fun showNat :: "nat \<Rightarrow> string" where
  "showNat n = (if n < 10 then [digitChar n] else showNat (n div 10) @ [digitChar (n mod 10)])"

definition showInt :: "int \<Rightarrow> string" where
  "showInt i = (if i < 0 then CHR ''-'' # showNat (nat (- i)) else showNat (nat i))"

text \<open>Go compares strings byte by byte; \<^verbatim>\<open>fmt\<close> prints a map in the order of its keys.\<close>

fun lessStr :: "string \<Rightarrow> string \<Rightarrow> bool" where
  "lessStr [] [] = False"
| "lessStr [] (d # t) = True"
| "lessStr (c # s) [] = False"
| "lessStr (c # s) (d # t) = ((of_char c :: nat) < of_char d \<or> (c = d \<and> lessStr s t))"

fun insertEntry :: "string \<times> 'a \<Rightarrow> (string \<times> 'a) list \<Rightarrow> (string \<times> 'a) list" where
  "insertEntry e [] = [e]"
| "insertEntry e (x # xs) =
     (if lessStr (fst x) (fst e) then x # insertEntry e xs else e # x # xs)"

definition sortEntries :: "(string \<times> 'a) list \<Rightarrow> (string \<times> 'a) list" where
  "sortEntries m = foldr insertEntry m []"

definition printMap :: "(string \<times> string) list \<Rightarrow> string" where
  "printMap m = ''map['' @ Join (map (\<lambda>(k, v). k @ '':'' @ v) (sortEntries m)) '' '' @ '']''"

text \<open>\<^verbatim>\<open>fmt.Sprintf("%v", v)\<close>.\<close>

fun sprintv :: "golib \<Rightarrow> val \<Rightarrow> string" where
  "sprintv L VNil = ''<nil>''"
| "sprintv L (VBool b) = (if b then ''true'' else ''false'')"
| "sprintv L (VStr s) = s"
| "sprintv L (VInt n) = showInt n"
| "sprintv L (VInt64 n) = showInt n"
| "sprintv L (VFloat f) = fmtFloat L f"
| "sprintv L (VList xs) = ''['' @ Join (map (sprintv L) xs) '' '' @ '']''"
| "sprintv L (VMap m) = printMap (map (\<lambda>(k, v). (k, sprintv L v)) m)"
| "sprintv L (VStrMap m) = printMap m"
| "sprintv L (VOther d) = d"

subsection \<open>Truthiness\<close>

text \<open>
  \<^verbatim>\<open>isTruthy\<close> of executor.go. In the case \<^verbatim>\<open>int, int64, float64\<close> of the type switch
  the variable \<^verbatim>\<open>val\<close> keeps the interface type, so \<^verbatim>\<open>val != 0\<close> compares it with
  the interface value holding the \<^verbatim>\<open>int\<close> 0.
\<close>

fun isTruthy :: "val \<Rightarrow> bool" where
  "isTruthy VNil = False"
| "isTruthy (VBool b) = b"
| "isTruthy (VStr s) = (s \<noteq> '''' \<and> s \<noteq> ''false'' \<and> s \<noteq> ''False'' \<and> s \<noteq> ''no'')"
| "isTruthy (VInt n) = (VInt n \<noteq> VInt 0)"
| "isTruthy (VInt64 n) = (VInt64 n \<noteq> VInt 0)"
| "isTruthy (VFloat f) = (VFloat f \<noteq> VInt 0)"
| "isTruthy (VList xs) = (0 < length xs)"
| "isTruthy (VMap m) = (0 < length m)"
| "isTruthy (VStrMap m) = True"
| "isTruthy (VOther d) = True"

section \<open>The playbook model\<close>

text \<open>
  \<^verbatim>\<open>Task\<close> and \<^verbatim>\<open>Role\<close> of package playbook. \<^verbatim>\<open>Retries\<close> and \<^verbatim>\<open>Delay\<close> are Go
  \<^verbatim>\<open>int\<close>s (64 bits), kept by value; arithmetic on them wraps where it is done.
  \<^verbatim>\<open>Become\<close> is a pointer to a \<^verbatim>\<open>bool\<close>.
\<close>

record Task =
  Name :: string
  Module :: string
  Params :: params
  RolePath :: string
  When :: string
  Register :: string
  Notify :: "string list"
  Loop :: "val list"
  LoopVar :: string
  IgnoreErrors :: bool
  Retries :: int
  Delay :: int
  Become :: "bool option"
  BecomeUser :: string
  ChangedWhen :: string
  FailedWhen :: string

record Role =
  RoleName :: string
  Path :: string
  RoleTasks :: "Task list"
  RoleHandlers :: "Task list"
  RoleVars :: params
  Defaults :: params

definition GetLoopVar :: "Task \<Rightarrow> string" where
  "GetLoopVar t = (if LoopVar t = [] then ''item'' else LoopVar t)"

subsection \<open>Parsing a raw task\<close>

datatype parse_error =
    MultipleModules string string
  | NoModule
  | NegativeRetries
  | NegativeDelay

definition knownTaskFields :: "string list" where
  "knownTaskFields =
     [''name'', ''when'', ''register'', ''notify'', ''loop'', ''with_items'', ''loop_var'',
      ''ignore_errors'', ''retries'', ''delay'', ''become'', ''become_user'',
      ''changed_when'', ''failed_when'']"

definition emptyTask :: Task where
  "emptyTask =
     \<lparr>Name = [], Module = [], Params = [], RolePath = [], When = [], Register = [],
      Notify = [], Loop = [], LoopVar = [], IgnoreErrors = False, Retries = 0, Delay = 0,
      Become = None, BecomeUser = [], ChangedWhen = [], FailedWhen = []\<rparr>"

text \<open>The type assertions \<^verbatim>\<open>raw[key].(string)\<close>, \<^verbatim>\<open>.(bool)\<close>, \<^verbatim>\<open>.(int)\<close>: the value when
  the key is there with that type, the field's zero value otherwise.\<close>

definition stringField :: "params \<Rightarrow> string \<Rightarrow> string" where
  "stringField raw key = (case map_of raw key of Some (VStr v) \<Rightarrow> v | _ \<Rightarrow> [])"

definition boolField :: "params \<Rightarrow> string \<Rightarrow> bool option" where
  "boolField raw key = (case map_of raw key of Some (VBool v) \<Rightarrow> Some v | _ \<Rightarrow> None)"

definition intField :: "params \<Rightarrow> string \<Rightarrow> int" where
  "intField raw key = (case map_of raw key of Some (VInt v) \<Rightarrow> v | _ \<Rightarrow> 0)"

fun stringItems :: "val list \<Rightarrow> string list" where
  "stringItems [] = []"
| "stringItems (VStr s # items) = s # stringItems items"
| "stringItems (v # items) = stringItems items"

definition parseNotify :: "params \<Rightarrow> string list" where
  "parseNotify raw =
     (case map_of raw ''notify'' of
        Some (VStr n) \<Rightarrow> [n]
      | Some (VList n) \<Rightarrow> stringItems n
      | _ \<Rightarrow> [])"

definition parseLoop :: "params \<Rightarrow> val list" where
  "parseLoop raw =
     (case map_of raw ''loop'' of
        Some loop \<Rightarrow> (case loop of VList items \<Rightarrow> items | _ \<Rightarrow> [])
      | None \<Rightarrow>
         (case map_of raw ''with_items'' of Some (VList items) \<Rightarrow> items | _ \<Rightarrow> []))"

definition moduleParams :: "val \<Rightarrow> params" where
  "moduleParams v =
     (case v of
        VMap ps \<Rightarrow> ps
      | VStr s \<Rightarrow> [(''_raw'', VStr s)]
      | VNil \<Rightarrow> []
      | _ \<Rightarrow> [(''_raw'', v)])"

text \<open>The loop over the raw map that finds the module key. Go visits the keys of a map
  in an order of its choosing: the order of the association list stands for it.\<close>

fun findModule :: "params \<Rightarrow> Task \<Rightarrow> parse_error + Task" where
  "findModule [] task = Inr task"
| "findModule ((key, v) # rest) task =
     (if key \<in> set knownTaskFields then findModule rest task
      else if Module task \<noteq> [] then Inl (MultipleModules (Module task) key)
      else findModule rest (task\<lparr>Module := key, Params := moduleParams v\<rparr>))"

definition parseRawTask :: "params \<Rightarrow> parse_error + Task" where
  "parseRawTask raw =
     findModule raw
       (emptyTask\<lparr>Name := stringField raw ''name'',
                  When := stringField raw ''when'',
                  Register := stringField raw ''register'',
                  LoopVar := stringField raw ''loop_var'',
                  IgnoreErrors := (boolField raw ''ignore_errors'' = Some True),
                  Retries := intField raw ''retries'',
                  Delay := intField raw ''delay'',
                  Become := boolField raw ''become'',
                  BecomeUser := stringField raw ''become_user'',
                  ChangedWhen := stringField raw ''changed_when'',
                  FailedWhen := stringField raw ''failed_when'',
                  Notify := parseNotify raw,
                  Loop := parseLoop raw\<rparr>)"

text \<open>\<^verbatim>\<open>Task.Validate\<close>: the error, if any.\<close>

definition Validate :: "Task \<Rightarrow> parse_error option" where
  "Validate t =
     (if Module t = [] then Some NoModule
      else if Retries t < 0 then Some NegativeRetries
      else if Delay t < 0 then Some NegativeDelay
      else None)"

text \<open>The keys of a raw task that are no directive.\<close>

definition moduleKeys :: "params \<Rightarrow> string list" where
  "moduleKeys raw = filter (\<lambda>k. k \<notin> set knownTaskFields) (map fst raw)"

subsection \<open>Shorthand parameters\<close>

definition shorthandKey :: "string \<Rightarrow> string" where
  "shorthandKey m =
     (if m = ''command'' \<or> m = ''shell'' then ''cmd''
      else if m = ''file'' then ''path''
      else if m = ''copy'' then ''dest''
      else ''name'')"

definition keyValue :: "string \<Rightarrow> params \<Rightarrow> params" where
  "keyValue part newParams =
     (let idx = Index part ''='' in
      if 0 < idx
      then AList.update (take (nat idx) part)
             (VStr (Trim (drop (nat idx + 1) part) [CHR 0x22, CHR 0x27])) newParams
      else newParams)"

definition ExpandShorthand :: "Task \<Rightarrow> Task" where
  "ExpandShorthand task =
     (case map_of (Params task) ''_raw'' of
        Some (VStr raw) \<Rightarrow>
          if \<not> Contains raw ''=''
          then task\<lparr>Params := [(shorthandKey (Module task), VStr raw)]\<rparr>
          else task\<lparr>Params := fold keyValue (Fields raw) []\<rparr>
      | _ \<Rightarrow> task)"

subsection \<open>Merging role variables\<close>

text \<open>\<^verbatim>\<open>for k, v := range src { dst[k] = v }\<close>\<close>

definition assignAll :: "params \<Rightarrow> params \<Rightarrow> params" where
  "assignAll src dst = fold (\<lambda>(k, v). AList.update k v) src dst"

definition MergeRoleVars :: "Role list \<Rightarrow> params \<Rightarrow> params" where
  "MergeRoleVars roles playVars =
     (let merged = fold (\<lambda>role. assignAll (Defaults role)) roles [];
          merged = fold (\<lambda>role. assignAll (RoleVars role)) roles merged
      in assignAll playVars merged)"

section \<open>The play context\<close>

text \<open>
  \<^verbatim>\<open>Play\<close> and \<^verbatim>\<open>Playbook\<close> of package playbook, and \<^verbatim>\<open>PlayContext\<close>, \<^verbatim>\<open>Stats\<close>,
  \<^verbatim>\<open>TaskResult\<close> and \<^verbatim>\<open>RunResult\<close> of package executor. \<^verbatim>\<open>NotifiedHandlers\<close> is a
  \<^verbatim>\<open>map[string]bool\<close>. The context carries three things more than the Go struct: the
  statistics of the run (a pointer the Go code passes along), the number of calls of
  \<^verbatim>\<open>Module.Run\<close> made so far, and the trace of what the executor has done.
\<close>

record Play =
  PlayName :: string
  Hosts :: string
  Connection :: string
  PlayVars :: params
  Roles :: "string list"
  Tasks :: "Task list"
  Handlers :: "Task list"
  PlayBecome :: bool
  PlayBecomeUser :: string
  GatherFacts :: "bool option"

record Playbook =
  PlaybookPath :: string
  Plays :: "Play list"

record Stats =
  StatPlays :: int
  StatTasks :: int
  StatOK :: int
  StatChanged :: int
  StatFailed :: int
  StatSkipped :: int

text \<open>What the executor does that its results do not show: a task entering
  \<^verbatim>\<open>runSingleTask\<close>, a call of \<^verbatim>\<open>Module.Run\<close> with the module's name and the
  interpolated parameters, a call of \<^verbatim>\<open>time.Sleep\<close> with its duration in
  nanoseconds.\<close>

datatype event =
    Started Task
  | Invoked string params
  | Slept int

record PlayContext =
  Play :: Play
  Vars :: params
  Facts :: params
  Registered :: params
  NotifiedHandlers :: "(string \<times> bool) list"
  stats :: Stats
  calls :: nat
  trace :: "event list"

datatype error =
    UnknownFilter string
  | ParameterError string error
  | UnknownModule string
  | InterpolateError error
  | ModuleError string
  | WhenError error
  | HandlerError string error
  | ConnectorError string
  | ConnectError string
  | FactsError string

section \<open>Variables and templates\<close>

subsection \<open>Looking a variable up\<close>

text \<open>The walk along a dotted path of \<^verbatim>\<open>lookupVariable\<close>: through
  \<^verbatim>\<open>map[string]any\<close> and \<^verbatim>\<open>map[string]string\<close>, stopping with \<^verbatim>\<open>nil\<close> at a
  \<^verbatim>\<open>nil\<close> and at any other value.\<close>

fun walkPath :: "string list \<Rightarrow> val \<Rightarrow> val" where
  "walkPath [] current = current"
| "walkPath (part # parts) current =
     (case current of
        VMap c \<Rightarrow>
          (let current = (case map_of c part of Some v \<Rightarrow> v | None \<Rightarrow> VNil)
           in if current = VNil then VNil else walkPath parts current)
      | VStrMap c \<Rightarrow>
          (let current = VStr (case map_of c part of Some v \<Rightarrow> v | None \<Rightarrow> [])
           in if current = VNil then VNil else walkPath parts current)
      | _ \<Rightarrow> VNil)"

definition lookupVariable :: "PlayContext \<Rightarrow> string \<Rightarrow> val" where
  "lookupVariable pctx name =
     (case map_of (Registered pctx) name of
        Some v \<Rightarrow> v
      | None \<Rightarrow>
         (case map_of (Vars pctx) name of
            Some v \<Rightarrow> v
          | None \<Rightarrow>
             if Contains name ''.''
             then walkPath (Split name (CHR ''.'')) (VMap (Vars pctx))
             else VNil))"

subsection \<open>Filters\<close>

text \<open>The number of keys of a map.\<close>

definition mapLen :: "(string \<times> 'a) list \<Rightarrow> nat" where
  "mapLen m = length (remdups (map fst m))"

text \<open>The name and the argument of a filter, as \<^verbatim>\<open>applyFilter\<close> reads them.\<close>

definition filterName :: "string \<Rightarrow> string" where
  "filterName filt =
     (let idx = Index filt ''('' in
      if 0 < idx then TrimSpace (take (nat idx) filt) else filt)"

definition filterArg :: "string \<Rightarrow> string" where
  "filterArg filt =
     (let idx = Index filt ''('' in
      if 0 < idx
      then (let argPart = drop (nat idx + 1) filt; endIdx = LastIndex argPart '')'' in
            if 0 < endIdx
            then Trim (TrimSpace (take (nat endIdx) argPart)) [CHR 0x27, CHR 0x22]
            else [])
      else [])"

definition applyFilter :: "golib \<Rightarrow> PlayContext \<Rightarrow> string \<Rightarrow> string \<Rightarrow> error + val" where
  "applyFilter L pctx varName filt =
     (let val = lookupVariable pctx varName;
          name = filterName filt;
          arg = filterArg filt in
      if name = ''default'' then
        (if val = VNil \<or> val = VStr [] then Inr (VStr arg) else Inr val)
      else if name = ''lower'' then
        (case val of VStr s \<Rightarrow> Inr (VStr (ToLower L s)) | _ \<Rightarrow> Inr val)
      else if name = ''upper'' then
        (case val of VStr s \<Rightarrow> Inr (VStr (ToUpper L s)) | _ \<Rightarrow> Inr val)
      else if name = ''trim'' then
        (case val of VStr s \<Rightarrow> Inr (VStr (TrimSpace s)) | _ \<Rightarrow> Inr val)
      else if name = ''bool'' then Inr (VBool (isTruthy val))
      else if name = ''string'' then Inr (VStr (sprintv L val))
      else if name = ''int'' then
        (case val of
           VInt v \<Rightarrow> Inr (VInt v)
         | VInt64 v \<Rightarrow> Inr (VInt v)
         | VFloat v \<Rightarrow> Inr (VInt (floatToInt L v))
         | VStr v \<Rightarrow> Inr (VInt (sscanInt L v))
         | _ \<Rightarrow> Inr (VInt 0))
      else if name = ''first'' then
        (case val of VList (x # xs) \<Rightarrow> Inr x | _ \<Rightarrow> Inr VNil)
      else if name = ''last'' then
        (case val of VList (x # xs) \<Rightarrow> Inr (last (x # xs)) | _ \<Rightarrow> Inr VNil)
      else if name = ''length'' \<or> name = ''count'' then
        (case val of
           VStr v \<Rightarrow> Inr (VInt (int (length v)))
         | VList v \<Rightarrow> Inr (VInt (int (length v)))
         | VMap v \<Rightarrow> Inr (VInt (int (mapLen v)))
         | _ \<Rightarrow> Inr (VInt 0))
      else if name = ''join'' then
        (case val of
           VList items \<Rightarrow>
             Inr (VStr (Join (map (sprintv L) items) (if arg = [] then '','' else arg)))
         | _ \<Rightarrow> Inr val)
      else Inl (UnknownFilter name))"

definition resolveVariable :: "golib \<Rightarrow> PlayContext \<Rightarrow> string \<Rightarrow> error + val" where
  "resolveVariable L pctx expr0 =
     (let expr = TrimSpace expr0; idx = Index expr ''|'' in
      if 0 < idx
      then applyFilter L pctx (TrimSpace (take (nat idx) expr))
             (TrimSpace (drop (nat idx + 1) expr))
      else Inr (lookupVariable pctx expr))"

subsection \<open>The pattern of a template expression\<close>

text \<open>
  \<^verbatim>\<open>varPattern\<close> is the regular expression \<^verbatim>\<open>\{\{\s*([^}]+?)\s*\}\}\<close>. Between the
  opening braces and the first closing brace all bytes match \<^verbatim>\<open>[^}]\<close>, so the pattern
  matches at the start of a string exactly when the string starts with two opening
  braces, at least one byte other than a closing brace follows, and the first closing
  brace is followed by a second one. The match is the text up to and including these.
  Go's matcher prefers what a backtracking search finds first: the first \<^verbatim>\<open>\s*\<close> takes
  all the white space it can, the lazy group \<^verbatim>\<open>([^}]+?)\<close> as little as it can, hence
  the body without the white space \<^verbatim>\<open>[\t\n\f\r ]\<close> at its ends; for a body of white
  space only the group is left its last byte.
\<close>

definition reSpace :: "char \<Rightarrow> bool" where
  "reSpace c = (c \<in> set [CHR 0x09, CHR 0x0A, CHR 0x0C, CHR 0x0D, CHR 0x20])"

definition notBrace :: "char \<Rightarrow> bool" where
  "notBrace c = (c \<noteq> CHR ''}'')"

definition group1 :: "string \<Rightarrow> string" where
  "group1 body =
     (let b = dropWhile reSpace body in
      if b = [] then [last body] else rev (dropWhile reSpace (rev b)))"

text \<open>The match at the start of a string: the matched text, the first group, and the
  text after the match.\<close>

definition matchHere :: "string \<Rightarrow> (string \<times> string \<times> string) option" where
  "matchHere s =
     (if HasPrefix s ''{{'' then
        (let body = takeWhile notBrace (drop 2 s);
             after = dropWhile notBrace (drop 2 s) in
         if body \<noteq> [] \<and> HasPrefix after ''}}''
         then Some (''{{'' @ body @ ''}}'', group1 body, drop 2 after)
         else None)
      else None)"

text \<open>\<^verbatim>\<open>varPattern.FindStringSubmatch\<close>: the leftmost match and its first group.\<close>

fun FindStringSubmatch :: "string \<Rightarrow> string list" where
  "FindStringSubmatch [] = []"
| "FindStringSubmatch (c # s) =
     (case matchHere (c # s) of
        Some (m, g, rest) \<Rightarrow> [m, g]
      | None \<Rightarrow> FindStringSubmatch s)"

text \<open>\<^verbatim>\<open>varPattern.ReplaceAllStringFunc\<close>: every match, from the left and without
  overlap, replaced by what the function makes of it.\<close>

lemma matchHere_shorter: "matchHere s = Some (m, g, rest) \<Longrightarrow> length rest < length s"
proof -
  assume h: "matchHere s = Some (m, g, rest)"
  then have r: "rest = drop 2 (dropWhile notBrace (drop 2 s))" and p: "HasPrefix s ''{{''"
    by (auto simp: matchHere_def Let_def split: if_splits)
  from p have "2 \<le> length s"
    by (auto simp: HasPrefix_def)
      (metis length_take min.cobounded1 length_Cons list.size(3) numeral_2_eq_2)
  moreover have "length (dropWhile notBrace (drop 2 s)) \<le> length s - 2"
    by (metis length_dropWhile_le length_drop)
  ultimately show ?thesis using r by simp
qed

function ReplaceAllStringFunc :: "string \<Rightarrow> (string \<Rightarrow> string) \<Rightarrow> string" where
  "ReplaceAllStringFunc s repl =
     (if s = [] then []
      else (case matchHere s of
              Some (m, g, rest) \<Rightarrow> repl m @ ReplaceAllStringFunc rest repl
            | None \<Rightarrow> hd s # ReplaceAllStringFunc (tl s) repl))"
  by pat_completeness auto
termination
  by (relation "measure (\<lambda>(s, repl). length s)") (auto simp: matchHere_shorter)

declare ReplaceAllStringFunc.simps [simp del]

subsection \<open>Interpolation\<close>

definition interpolateString :: "golib \<Rightarrow> PlayContext \<Rightarrow> string \<Rightarrow> error + val" where
  "interpolateString L pctx s =
     (let trimmed = TrimSpace s;
          inner = TrimSpace (take (length trimmed - 4) (drop 2 trimmed)) in
      if HasPrefix trimmed ''{{'' \<and> HasSuffix trimmed ''}}'' \<and> \<not> Contains inner ''{{''
      then resolveVariable L pctx inner
      else Inr (VStr (ReplaceAllStringFunc s
             (\<lambda>match.
                (let inner = FindStringSubmatch match in
                 if length inner < 2 then match
                 else (case resolveVariable L pctx (TrimSpace (inner ! 1)) of
                         Inl err \<Rightarrow> match
                       | Inr val \<Rightarrow> sprintv L val))))))"

text \<open>A loop that stops at the first error.\<close>

fun firstError :: "(error + 'a) list \<Rightarrow> error + 'a list" where
  "firstError [] = Inr []"
| "firstError (Inl err # rs) = Inl err"
| "firstError (Inr x # rs) = (case firstError rs of Inl err \<Rightarrow> Inl err | Inr xs \<Rightarrow> Inr (x # xs))"

fun interpolateValue :: "golib \<Rightarrow> PlayContext \<Rightarrow> val \<Rightarrow> error + val" where
  "interpolateValue L pctx (VStr s) = interpolateString L pctx s"
| "interpolateValue L pctx (VList xs) =
     (case firstError (map (interpolateValue L pctx) xs) of
        Inl err \<Rightarrow> Inl err
      | Inr result \<Rightarrow> Inr (VList result))"
| "interpolateValue L pctx (VMap m) =
     (case firstError
             (map (\<lambda>(k, item).
                (case interpolateValue L pctx item of
                   Inl err \<Rightarrow> Inl err
                 | Inr interpolated \<Rightarrow> Inr (k, interpolated))) m) of
        Inl err \<Rightarrow> Inl err
      | Inr result \<Rightarrow> Inr (VMap result))"
| "interpolateValue L pctx v = Inr v"

definition interpolateParams :: "golib \<Rightarrow> PlayContext \<Rightarrow> params \<Rightarrow> error + params" where
  "interpolateParams L pctx ps =
     firstError
       (map (\<lambda>(k, v).
          (case interpolateValue L pctx v of
             Inl err \<Rightarrow> Inl (ParameterError k err)
           | Inr interpolated \<Rightarrow> Inr (k, interpolated))) ps)"

section \<open>Conditions\<close>

text \<open>A Go function returns or panics. \<^verbatim>\<open>resolveValue\<close> slices \<^verbatim>\<open>s[1 : len(s)-1]\<close> once
  \<open>s\<close> starts and ends with a quote, which panics (slice bounds out of range) for the
  string that is one quote character.\<close>

datatype 'a go = Panic | Return 'a

text \<open>The walk along a dotted path of \<^verbatim>\<open>resolveValue\<close>: through \<^verbatim>\<open>map[string]any\<close>
  only, and on to the end of the path.\<close>

fun walkMaps :: "string list \<Rightarrow> val \<Rightarrow> val" where
  "walkMaps [] current = current"
| "walkMaps (part # parts) current =
     (case current of
        VMap m \<Rightarrow> walkMaps parts (case map_of m part of Some v \<Rightarrow> v | None \<Rightarrow> VNil)
      | _ \<Rightarrow> VNil)"

definition quoted :: "string \<Rightarrow> bool" where
  "quoted s =
     ((HasPrefix s [CHR 0x27] \<and> HasSuffix s [CHR 0x27]) \<or>
      (HasPrefix s [CHR 0x22] \<and> HasSuffix s [CHR 0x22]))"

definition resolveValue :: "PlayContext \<Rightarrow> string \<Rightarrow> val go" where
  "resolveValue pctx s0 =
     (let s = TrimSpace s0 in
      if quoted s then
        (if length s - 1 < 1 then Panic
         else Return (VStr (take (length s - 2) (drop 1 s))))
      else if s = ''true'' \<or> s = ''True'' then Return (VBool True)
      else if s = ''false'' \<or> s = ''False'' then Return (VBool False)
      else (case map_of (Vars pctx) s of
              Some val \<Rightarrow> Return val
            | None \<Rightarrow>
                if Contains s ''.''
                then Return (walkMaps (Split s (CHR ''.'')) (VMap (Vars pctx)))
                else Return (VStr s)))"

text \<open>The comparison of \<^verbatim>\<open>evaluateCondition\<close>: both sides resolved and printed.\<close>

definition compareSides :: "golib \<Rightarrow> PlayContext \<Rightarrow> string \<Rightarrow> string \<Rightarrow> bool go" where
  "compareSides L pctx condition sep =
     (let parts = SplitN2 condition sep;
          left = TrimSpace (parts ! 0);
          right = TrimSpace (parts ! 1) in
      case resolveValue pctx left of
        Panic \<Rightarrow> Panic
      | Return leftVal \<Rightarrow>
         (case resolveValue pctx right of
            Panic \<Rightarrow> Panic
          | Return rightVal \<Rightarrow> Return (sprintv L leftVal = sprintv L rightVal)))"

definition registeredChanged :: "PlayContext \<Rightarrow> string \<Rightarrow> bool" where
  "registeredChanged pctx varName =
     (case map_of (Registered pctx) varName of
        Some (VMap regMap) \<Rightarrow>
          (case map_of regMap ''changed'' of Some (VBool changed) \<Rightarrow> changed | _ \<Rightarrow> False)
      | _ \<Rightarrow> False)"

declare TrimLeftSpace.simps [simp del] TrimRightSpace.simps [simp del]

lemma length_TrimLeftSpace: "length (TrimLeftSpace s) \<le> length s"
proof (induction s rule: TrimLeftSpace.induct)
  case (1 s)
  show ?case
  proof (cases "leadingSpace s = 0 \<or> length s < leadingSpace s")
    case True
    then show ?thesis by (subst TrimLeftSpace.simps) (simp del: TrimLeftSpace.simps)
  next
    case False
    with "1" have "length (TrimLeftSpace (drop (leadingSpace s) s))
        \<le> length (drop (leadingSpace s) s)"
      by blast
    moreover have "length (drop (leadingSpace s) s) \<le> length s"
      by simp
    ultimately have "length (TrimLeftSpace (drop (leadingSpace s) s)) \<le> length s"
      by (rule order_trans)
    with False show ?thesis by (subst TrimLeftSpace.simps) (simp del: TrimLeftSpace.simps)
  qed
qed

lemma length_TrimRightSpace: "length (TrimRightSpace s) \<le> length s"
proof (induction s rule: TrimRightSpace.induct)
  case (1 s)
  show ?case
  proof (cases "trailingSpace s = 0 \<or> length s < trailingSpace s")
    case True
    then show ?thesis by (subst TrimRightSpace.simps) (simp del: TrimRightSpace.simps)
  next
    case False
    with "1" have "length (TrimRightSpace (take (length s - trailingSpace s) s))
        \<le> length (take (length s - trailingSpace s) s)"
      by blast
    moreover have "length (take (length s - trailingSpace s) s) \<le> length s"
      by simp
    ultimately have "length (TrimRightSpace (take (length s - trailingSpace s) s)) \<le> length s"
      by (rule order_trans)
    with False show ?thesis by (subst TrimRightSpace.simps) (simp del: TrimRightSpace.simps)
  qed
qed

lemma length_TrimSpace: "length (TrimSpace s) \<le> length s"
  unfolding TrimSpace_def
  by (rule order_trans [OF length_TrimRightSpace length_TrimLeftSpace])

lemma HasPrefix_length: "HasPrefix s p \<Longrightarrow> length p \<le> length s"
  by (metis HasPrefix_def length_take min.cobounded1)

text \<open>\<^verbatim>\<open>evaluateCondition\<close>: the truth of a \<^verbatim>\<open>when\<close> clause, and the error, which is
  \<^verbatim>\<open>nil\<close> on every path.\<close>

function evaluateCondition :: "golib \<Rightarrow> PlayContext \<Rightarrow> string \<Rightarrow> (bool \<times> error option) go" where
  "evaluateCondition L pctx condition0 =
     (let condition = TrimSpace condition0 in
      if HasPrefix condition ''not '' then
        (case evaluateCondition L pctx (drop 4 condition) of
           Panic \<Rightarrow> Panic
         | Return (result, err) \<Rightarrow> Return (\<not> result, err))
      else if HasSuffix condition ''.changed'' then
        Return (registeredChanged pctx (TrimSuffix condition ''.changed''), None)
      else if Contains condition ''=='' then
        (case compareSides L pctx condition ''=='' of
           Panic \<Rightarrow> Panic
         | Return eq \<Rightarrow> Return (eq, None))
      else if Contains condition ''!='' then
        (case compareSides L pctx condition ''!='' of
           Panic \<Rightarrow> Panic
         | Return eq \<Rightarrow> Return (\<not> eq, None))
      else (case resolveValue pctx condition of
              Panic \<Rightarrow> Panic
            | Return val \<Rightarrow> Return (isTruthy val, None)))"
  by pat_completeness auto
termination
proof (relation "measure (\<lambda>(L, pctx, c). length c)")
  show "wf (measure (\<lambda>(L, pctx, c). length c))" by simp
next
  fix L :: golib and pctx :: PlayContext and condition0 condition :: string
  assume c: "condition = TrimSpace condition0" and p: "HasPrefix condition ''not ''"
  from p have "4 \<le> length condition" using HasPrefix_length by fastforce
  moreover from c have "length condition \<le> length condition0" by (simp add: length_TrimSpace)
  ultimately show "((L, pctx, drop 4 condition), (L, pctx, condition0))
      \<in> measure (\<lambda>(L, pctx, c). length c)" by simp
qed

declare evaluateCondition.simps [simp del]

section \<open>The executor\<close>

text \<open>
  \<^verbatim>\<open>module.Result\<close>, \<^verbatim>\<open>TaskResult\<close>, \<^verbatim>\<open>RunResult\<close> and the fields of \<^verbatim>\<open>Executor\<close>
  that the run reads. A \<^verbatim>\<open>*TaskResult\<close> is an option: \<^verbatim>\<open>nil\<close> is \<open>None\<close>.
\<close>

record Result =
  Changed :: bool
  Message :: string
  Data :: params

record TaskResult =
  Status :: string
  TaskChanged :: bool
  TaskData :: params
  Error :: "error option"

record RunResult =
  Success :: bool
  RunStats :: Stats

record Executor =
  DryRun :: bool
  Debug :: bool

text \<open>
  What the executor calls outside the engine. \<open>registry\<close> lists the names with a
  registered module (\<^verbatim>\<open>module.Get\<close> is not \<^verbatim>\<open>nil\<close>). \<open>moduleRun n name ps\<close> is what
  \<^verbatim>\<open>Module.Run\<close> of the module \<open>name\<close> returns for the parameters \<open>ps\<close> when the
  call is the \<open>n\<close>-th of the run, counting from 0: a module acts on the target, so
  its answer may differ from one call to the next. It returns a result or an error.
  \<open>connect\<close> is the error of \<^verbatim>\<open>Connector.Connect\<close>, \<open>gatherFacts\<close> is
  \<^verbatim>\<open>facts.Gather\<close>, \<open>environ\<close> is \<^verbatim>\<open>os.Environ()\<close>.
\<close>

record runtime =
  lib :: golib
  registry :: "string list"
  moduleRun :: "nat \<Rightarrow> string \<Rightarrow> params \<Rightarrow> string + Result"
  connect :: "Play \<Rightarrow> string option"
  gatherFacts :: "Play \<Rightarrow> string + params"
  environ :: "string list"

subsection \<open>One task, once\<close>

text \<open>A Go \<^verbatim>\<open>int\<close> has 64 bits and its arithmetic wraps around.\<close>

definition wrap64 :: "int \<Rightarrow> int" where
  "wrap64 x = (x + 2 ^ 63) mod 2 ^ 64 - 2 ^ 63"

text \<open>\<^verbatim>\<open>maxAttempts := task.Retries + 1\<close>, raised to 1 when it is less.\<close>

definition maxAttempts :: "Task \<Rightarrow> int" where
  "maxAttempts task = (let m = wrap64 (Retries task + 1) in if m < 1 then 1 else m)"

text \<open>\<^verbatim>\<open>time.Duration(task.Delay) * time.Second\<close>, in nanoseconds.\<close>

definition sleepDuration :: "Task \<Rightarrow> int" where
  "sleepDuration task = wrap64 (Delay task * 1000000000)"

text \<open>
  The retry loop \<^verbatim>\<open>for attempt := 1; attempt <= maxAttempts; attempt++\<close>, entered at
  an attempt that is to be made (the first one is, as \<open>maxAttempts\<close> is at least 1):
  sleep unless it is the first attempt, call the module, stop at a result, and after an
  error go on while another attempt is left. The counter is taken as a mathematical
  integer: in the source it would wrap only after \<open>2 ^ 63 - 1\<close> attempts.
\<close>

function attemptFrom ::
  "runtime \<Rightarrow> Task \<Rightarrow> params \<Rightarrow> int \<Rightarrow> PlayContext \<Rightarrow> (string + Result) \<times> PlayContext" where
  "attemptFrom R task ps attempt pctx =
     (let pctx1 = (if 1 < attempt
                   then pctx\<lparr>trace := trace pctx @ [Slept (sleepDuration task)]\<rparr>
                   else pctx);
          answer = moduleRun R (calls pctx1) (Module task) ps;
          pctx2 = pctx1\<lparr>calls := calls pctx1 + 1,
                        trace := trace pctx1 @ [Invoked (Module task) ps]\<rparr>
      in case answer of
           Inr result \<Rightarrow> (Inr result, pctx2)
         | Inl lastErr \<Rightarrow>
             if attempt + 1 \<le> maxAttempts task
             then attemptFrom R task ps (attempt + 1) pctx2
             else (Inl lastErr, pctx2))"
  by pat_completeness auto
termination
  by (relation "measure (\<lambda>(R, task, ps, attempt, pctx). nat (maxAttempts task - attempt))") auto

declare attemptFrom.simps [simp del]

definition registerResult :: "Task \<Rightarrow> Result \<Rightarrow> PlayContext \<Rightarrow> PlayContext" where
  "registerResult task result pctx =
     (if Register task \<noteq> [] then
        (let reg = VMap [(''changed'', VBool (Changed result)),
                         (''message'', VStr (Message result)),
                         (''data'', VMap (Data result))]
         in pctx\<lparr>Registered := AList.update (Register task) reg (Registered pctx),
                 Vars := AList.update (Register task) reg (Vars pctx)\<rparr>)
      else pctx)"

definition notifyHandlers :: "Task \<Rightarrow> Result \<Rightarrow> PlayContext \<Rightarrow> PlayContext" where
  "notifyHandlers task result pctx =
     (if Changed result \<and> 0 < length (Notify task)
      then pctx\<lparr>NotifiedHandlers :=
                  fold (\<lambda>handler. AList.update handler True) (Notify task)
                    (NotifiedHandlers pctx)\<rparr>
      else pctx)"

text \<open>\<^verbatim>\<open>runSingleTask\<close>: the result and the error, the task as \<^verbatim>\<open>ExpandShorthand\<close> has
  left it (the Go code changes it in place), and the context after the call.\<close>

definition runSingleTask ::
  "runtime \<Rightarrow> Executor \<Rightarrow> PlayContext \<Rightarrow> Task \<Rightarrow>
     (TaskResult option \<times> error option) \<times> Task \<times> PlayContext" where
  "runSingleTask R e pctx0 task0 =
     (let pctx = pctx0\<lparr>trace := trace pctx0 @ [Started task0]\<rparr>;
          task = ExpandShorthand task0 in
      if Module task \<notin> set (registry R)
      then ((None, Some (UnknownModule (Module task))), task, pctx)
      else
        (case interpolateParams (lib R) pctx (Params task) of
           Inl err \<Rightarrow> ((None, Some (InterpolateError err)), task, pctx)
         | Inr ps \<Rightarrow>
            if DryRun e
            then ((Some \<lparr>Status = ''skipped'', TaskChanged = False, TaskData = [],
                          Error = None\<rparr>, None), task, pctx)
            else
              (case attemptFrom R task ps 1 pctx of
                 (Inl lastErr, pctx1) \<Rightarrow>
                   ((Some \<lparr>Status = ''failed'', TaskChanged = False, TaskData = [],
                           Error = Some (ModuleError lastErr)\<rparr>,
                     Some (ModuleError lastErr)), task, pctx1)
               | (Inr result, pctx1) \<Rightarrow>
                   ((Some \<lparr>Status = (if Changed result then ''changed'' else ''ok''),
                           TaskChanged = Changed result, TaskData = Data result,
                           Error = None\<rparr>, None),
                    task, notifyHandlers task result (registerResult task result pctx1)))))"

subsection \<open>A task over a loop\<close>

text \<open>The loop of \<^verbatim>\<open>runTaskLoop\<close> from the item of index \<open>i\<close> on: \<open>Inl\<close> is the
  early return at an iteration's error, \<open>Inr\<close> is \<open>anyChanged\<close> at the end of the
  list.\<close>

fun loopFrom ::
  "runtime \<Rightarrow> Executor \<Rightarrow> string \<Rightarrow> val list \<Rightarrow> int \<Rightarrow> bool \<Rightarrow> PlayContext \<Rightarrow> Task \<Rightarrow>
     ((TaskResult option \<times> error) + bool) \<times> Task \<times> PlayContext" where
  "loopFrom R e loopVar [] i anyChanged pctx task = (Inr anyChanged, task, pctx)"
| "loopFrom R e loopVar (item # items) i anyChanged pctx task =
     (let pctx1 = pctx\<lparr>Vars := AList.update ''loop_index'' (VInt i)
                                 (AList.update loopVar item (Vars pctx))\<rparr>
      in case runSingleTask R e pctx1 task of
           ((result, Some err), task1, pctx2) \<Rightarrow> (Inl (result, err), task1, pctx2)
         | ((result, None), task1, pctx2) \<Rightarrow>
             loopFrom R e loopVar items (i + 1)
               (anyChanged \<or> (case result of Some r \<Rightarrow> TaskChanged r | None \<Rightarrow> False))
               pctx2 task1)"

definition runTaskLoop ::
  "runtime \<Rightarrow> Executor \<Rightarrow> PlayContext \<Rightarrow> Task \<Rightarrow>
     (TaskResult option \<times> error option) \<times> Task \<times> PlayContext" where
  "runTaskLoop R e pctx task =
     (let loopVar = GetLoopVar task in
      case loopFrom R e loopVar (Loop task) 0 False pctx task of
        (Inl (result, err), task1, pctx1) \<Rightarrow> ((result, Some err), task1, pctx1)
      | (Inr anyChanged, task1, pctx1) \<Rightarrow>
          ((Some \<lparr>Status = (if anyChanged then ''changed'' else ''ok''),
                  TaskChanged = anyChanged, TaskData = [], Error = None\<rparr>, None),
           task1,
           pctx1\<lparr>Vars := AList.delete ''loop_index'' (AList.delete loopVar (Vars pctx1))\<rparr>))"

definition runTask ::
  "runtime \<Rightarrow> Executor \<Rightarrow> PlayContext \<Rightarrow> Task \<Rightarrow>
     ((TaskResult option \<times> error option) \<times> Task \<times> PlayContext) go" where
  "runTask R e pctx task =
     (case (if When task \<noteq> [] then evaluateCondition (lib R) pctx (When task)
            else Return (True, None)) of
        Panic \<Rightarrow> Panic
      | Return (shouldRun, Some err) \<Rightarrow> Return ((None, Some (WhenError err)), task, pctx)
      | Return (shouldRun, None) \<Rightarrow>
          if \<not> shouldRun
          then Return ((Some \<lparr>Status = ''skipped'', TaskChanged = False, TaskData = [],
                              Error = None\<rparr>, None), task, pctx)
          else if 0 < length (Loop task) then Return (runTaskLoop R e pctx task)
          else Return (runSingleTask R e pctx task))"

subsection \<open>Handlers\<close>

definition countStatus :: "string \<Rightarrow> Stats \<Rightarrow> Stats" where
  "countStatus status st =
     (if status = ''ok'' then st\<lparr>StatOK := StatOK st + 1\<rparr>
      else if status = ''changed'' then st\<lparr>StatChanged := StatChanged st + 1\<rparr>
      else st)"

text \<open>The loop of \<^verbatim>\<open>runHandlers\<close> over the declared handlers.\<close>

fun handlersFrom :: "runtime \<Rightarrow> Executor \<Rightarrow> Task list \<Rightarrow> PlayContext \<Rightarrow> error option \<times> PlayContext" where
  "handlersFrom R e [] pctx = (None, pctx)"
| "handlersFrom R e (handler # rest) pctx =
     (if map_of (NotifiedHandlers pctx) (Name handler) \<noteq> Some True
      then handlersFrom R e rest pctx
      else
        (let pctx1 = pctx\<lparr>stats := (stats pctx)\<lparr>StatTasks := StatTasks (stats pctx) + 1\<rparr>\<rparr>
         in case runSingleTask R e pctx1 handler of
              ((result, Some err), handler1, pctx2) \<Rightarrow>
                (Some (HandlerError (Name handler) err),
                 pctx2\<lparr>stats := (stats pctx2)\<lparr>StatFailed := StatFailed (stats pctx2) + 1\<rparr>\<rparr>)
            | ((result, None), handler1, pctx2) \<Rightarrow>
                handlersFrom R e rest
                  (pctx2\<lparr>stats :=
                     countStatus (case result of Some r \<Rightarrow> Status r | None \<Rightarrow> [])
                       (stats pctx2)\<rparr>)))"

definition runHandlers :: "runtime \<Rightarrow> Executor \<Rightarrow> PlayContext \<Rightarrow> error option \<times> PlayContext" where
  "runHandlers R e pctx =
     (if length (NotifiedHandlers pctx) = 0 then (None, pctx)
      else handlersFrom R e (Handlers (Play pctx)) pctx)"

subsection \<open>Plays and the playbook\<close>

definition ShouldGatherFacts :: "Play \<Rightarrow> bool" where
  "ShouldGatherFacts p = (case GatherFacts p of None \<Rightarrow> True | Some b \<Rightarrow> b)"

definition GetConnection :: "Play \<Rightarrow> string" where
  "GetConnection p = (if Connection p = [] then ''local'' else Connection p)"

text \<open>\<^verbatim>\<open>getConnector\<close>: the error, if any.\<close>

definition getConnector :: "Play \<Rightarrow> string option" where
  "getConnector play =
     (let connType = GetConnection play in
      if connType = ''local'' \<or> connType = ''docker'' then None
      else if connType = ''ssh'' then Some ''SSH connector not yet implemented''
      else if connType = ''ssm'' then Some ''SSM connector not yet implemented''
      else Some (''unknown connection type: '' @ connType))"

definition envEntry :: "string \<Rightarrow> (string \<times> string) list \<Rightarrow> (string \<times> string) list" where
  "envEntry entry env =
     (let idx = Index entry ''='' in
      if 0 < idx then AList.update (take (nat idx) entry) (drop (nat idx + 1) entry) env
      else env)"

definition getEnvMap :: "runtime \<Rightarrow> (string \<times> string) list" where
  "getEnvMap R = fold envEntry (environ R) []"

text \<open>The loop of \<^verbatim>\<open>runPlay\<close> over the tasks of the play.\<close>

definition countTask :: "TaskResult option \<Rightarrow> Stats \<Rightarrow> Stats" where
  "countTask result st =
     (case result of
        None \<Rightarrow> st
      | Some r \<Rightarrow>
          if Status r = ''skipped'' then st\<lparr>StatSkipped := StatSkipped st + 1\<rparr>
          else countStatus (Status r) st)"

fun tasksFrom :: "runtime \<Rightarrow> Executor \<Rightarrow> Task list \<Rightarrow> PlayContext \<Rightarrow> (error option \<times> PlayContext) go" where
  "tasksFrom R e [] pctx = Return (None, pctx)"
| "tasksFrom R e (task # rest) pctx =
     (let pctx1 = pctx\<lparr>stats := (stats pctx)\<lparr>StatTasks := StatTasks (stats pctx) + 1\<rparr>\<rparr>
      in case runTask R e pctx1 task of
           Panic \<Rightarrow> Panic
         | Return ((taskResult, Some err), task1, pctx2) \<Rightarrow>
             (let pctx3 = pctx2\<lparr>stats :=
                            (stats pctx2)\<lparr>StatFailed := StatFailed (stats pctx2) + 1\<rparr>\<rparr>
              in if \<not> IgnoreErrors task1 then Return (Some err, pctx3)
                 else tasksFrom R e rest pctx3)
         | Return ((taskResult, None), task1, pctx2) \<Rightarrow>
             tasksFrom R e rest (pctx2\<lparr>stats := countTask taskResult (stats pctx2)\<rparr>))"

text \<open>\<^verbatim>\<open>runPlay\<close>. The context of the play is new; of the argument it keeps the
  statistics, the call count and the trace of the run so far.\<close>

definition runPlay :: "runtime \<Rightarrow> Executor \<Rightarrow> Play \<Rightarrow> PlayContext \<Rightarrow> (error option \<times> PlayContext) go" where
  "runPlay R e play before =
     (let pctx = before\<lparr>Play := play,
                        Vars := AList.update ''env'' (VStrMap (getEnvMap R))
                                  (assignAll (PlayVars play) []),
                        Facts := [], Registered := [], NotifiedHandlers := []\<rparr>
      in case getConnector play of
           Some msg \<Rightarrow> Return (Some (ConnectorError msg), pctx)
         | None \<Rightarrow>
            (case connect R play of
               Some msg \<Rightarrow> Return (Some (ConnectError msg), pctx)
             | None \<Rightarrow>
                (case (if ShouldGatherFacts play then gatherFacts R play else Inr []) of
                   Inl msg \<Rightarrow> Return (Some (FactsError msg), pctx)
                 | Inr f \<Rightarrow>
                    (let pctx1 = (if ShouldGatherFacts play
                                  then pctx\<lparr>Facts := f,
                                            Vars := AList.update ''facts'' (VMap f) (Vars pctx)\<rparr>
                                  else pctx)
                     in case tasksFrom R e (Tasks play) pctx1 of
                          Panic \<Rightarrow> Panic
                        | Return (Some err, pctx2) \<Rightarrow> Return (Some err, pctx2)
                        | Return (None, pctx2) \<Rightarrow> Return (runHandlers R e pctx2)))))"

text \<open>The loop of \<^verbatim>\<open>Run\<close> over the plays: whether the run is a success so far, and the
  context of the last play run.\<close>

fun playsFrom :: "runtime \<Rightarrow> Executor \<Rightarrow> Play list \<Rightarrow> PlayContext \<Rightarrow> (bool \<times> PlayContext) go" where
  "playsFrom R e [] before = Return (True, before)"
| "playsFrom R e (play # rest) before =
     (case runPlay R e play before of
        Panic \<Rightarrow> Panic
      | Return (Some err, pctx) \<Rightarrow> Return (False, pctx)
      | Return (None, pctx) \<Rightarrow> playsFrom R e rest pctx)"

definition emptyPlay :: Play where
  "emptyPlay =
     \<lparr>PlayName = [], Hosts = [], Connection = [], PlayVars = [], Roles = [], Tasks = [],
      Handlers = [], PlayBecome = False, PlayBecomeUser = [], GatherFacts = None\<rparr>"

text \<open>The state at the start of \<^verbatim>\<open>Run\<close>: no play yet, the statistics with the number of
  plays, nothing done.\<close>

definition startOfRun :: "Playbook \<Rightarrow> PlayContext" where
  "startOfRun pb =
     \<lparr>Play = emptyPlay, Vars = [], Facts = [], Registered = [], NotifiedHandlers = [],
      stats = \<lparr>StatPlays = int (length (Plays pb)), StatTasks = 0, StatOK = 0,
                StatChanged = 0, StatFailed = 0, StatSkipped = 0\<rparr>,
      calls = 0, trace = []\<rparr>"

text \<open>\<^verbatim>\<open>Executor.Run\<close>: the result and the error it returns, and with them the trace of
  the run.\<close>

definition Run :: "runtime \<Rightarrow> Executor \<Rightarrow> Playbook \<Rightarrow> ((RunResult \<times> error option) \<times> event list) go" where
  "Run R e pb =
     (case playsFrom R e (Plays pb) (startOfRun pb) of
        Panic \<Rightarrow> Panic
      | Return (success, pctx) \<Rightarrow>
          Return ((\<lparr>Success = success, RunStats = stats pctx\<rparr>, None), trace pctx))"

section \<open>Reference definitions and example inputs\<close>

text \<open>A Go map holds each key once.\<close>

definition wfMap :: "(string \<times> 'a) list \<Rightarrow> bool" where
  "wfMap m = distinct (map fst m)"

subsection \<open>Variable precedence, as the specification words it\<close>

text \<open>The value a key has in the last map of a list that defines it.\<close>

fun lastDefining :: "params list \<Rightarrow> string \<Rightarrow> val option" where
  "lastDefining [] k = None"
| "lastDefining (m # ms) k =
     (case lastDefining ms k of Some v \<Rightarrow> Some v | None \<Rightarrow> map_of m k)"

text \<open>Play vars win over role vars, role vars over role defaults; among roles the one
  declared later wins.\<close>

definition byPrecedence :: "Role list \<Rightarrow> params \<Rightarrow> string \<Rightarrow> val option" where
  "byPrecedence roles playVars k =
     (case map_of playVars k of
        Some v \<Rightarrow> Some v
      | None \<Rightarrow>
         (case lastDefining (map RoleVars roles) k of
            Some v \<Rightarrow> Some v
          | None \<Rightarrow> lastDefining (map Defaults roles) k))"

definition webRole :: Role where
  "webRole =
     \<lparr>RoleName = ''web'', Path = ''roles/web'', RoleTasks = [], RoleHandlers = [],
      RoleVars = [(''port'', VInt 8080)], Defaults = [(''port'', VInt 80)]\<rparr>"

subsection \<open>Raw tasks\<close>

definition rawNginx :: params where
  "rawNginx = [(''name'', VStr ''Install nginx''), (''apt'', VMap [(''name'', VStr ''nginx'')]),
               (''retries'', VInt 2)]"

definition rawNegativeRetries :: params where
  "rawNegativeRetries = [(''apt'', VMap [(''name'', VStr ''nginx'')]), (''retries'', VInt (- 1))]"

definition rawTwoModules :: params where
  "rawTwoModules = [(''apt'', VStr ''nginx''), (''name'', VStr ''both''), (''brew'', VStr ''nginx'')]"

definition rawNoModule :: params where
  "rawNoModule = [(''name'', VStr ''nothing to do''), (''when'', VStr ''true'')]"

subsection \<open>Reading the trace\<close>

text \<open>The number of module invocations in a trace, and the durations slept, in order.\<close>

fun invocations :: "event list \<Rightarrow> nat" where
  "invocations [] = 0"
| "invocations (Invoked m ps # evs) = Suc (invocations evs)"
| "invocations (ev # evs) = invocations evs"

fun delays :: "event list \<Rightarrow> int list" where
  "delays [] = []"
| "delays (Slept d # evs) = d # delays evs"
| "delays (ev # evs) = delays evs"

text \<open>What the retry loop does when \<open>k\<close> attempts fail before its last one: an
  invocation, then \<open>k\<close> times a sleep and an invocation.\<close>

definition attemptEvents :: "Task \<Rightarrow> params \<Rightarrow> nat \<Rightarrow> event list" where
  "attemptEvents task ps k =
     Invoked (Module task) ps #
     concat (replicate k [Slept (sleepDuration task), Invoked (Module task) ps])"

subsection \<open>A task, two targets\<close>

text \<open>A library for the examples, none of which has a float, a letter to map or a number
  to scan. On the target \<open>flaky\<close> the first two module calls of the run fail and the
  later ones succeed with a change; on \<open>broken\<close> every call fails.\<close>

definition plainLib :: golib where
  "plainLib = \<lparr>fmtFloat = (\<lambda>f. ''0''), floatToInt = (\<lambda>f. 0), ToLower = (\<lambda>s. s),
               ToUpper = (\<lambda>s. s), sscanInt = (\<lambda>s. 0)\<rparr>"

definition changedResult :: Result where
  "changedResult = \<lparr>Changed = True, Message = ''done'', Data = []\<rparr>"

definition flaky :: runtime where
  "flaky = \<lparr>lib = plainLib, registry = [''command''],
            moduleRun = (\<lambda>n name ps. if n < 2 then Inl ''exit status 1'' else Inr changedResult),
            connect = (\<lambda>play. None), gatherFacts = (\<lambda>play. Inr []), environ = []\<rparr>"

definition broken :: runtime where
  "broken = flaky\<lparr>moduleRun := (\<lambda>n name ps. Inl ''exit status 1'')\<rparr>"

definition noDryRun :: Executor where
  "noDryRun = \<lparr>DryRun = False, Debug = False\<rparr>"

definition freshContext :: PlayContext where
  "freshContext = startOfRun \<lparr>PlaybookPath = [], Plays = []\<rparr>"

definition echoTask :: Task where
  "echoTask = emptyTask\<lparr>Name := ''say hi'', Module := ''command'',
                         Params := [(''cmd'', VStr ''echo hi'')], Retries := 2\<rparr>"

text \<open>The same task over a list of two items, without retries.\<close>

definition loopTask :: Task where
  "loopTask = echoTask\<lparr>Loop := [VStr ''a'', VStr ''b''], Retries := 0\<rparr>"

text \<open>A playbook of one play on localhost whose only task has the condition
  \<^verbatim>\<open>when: "'"\<close>, a single quote character.\<close>

definition quotePlaybook :: Playbook where
  "quotePlaybook =
     \<lparr>PlaybookPath = ''site.yaml'',
      Plays = [emptyPlay\<lparr>Hosts := ''localhost'', GatherFacts := Some False,
                          Tasks := [echoTask\<lparr>When := [CHR 0x27]\<rparr>]\<rparr>]\<rparr>"

subsection \<open>Handlers\<close>

text \<open>The tasks that \<^verbatim>\<open>runSingleTask\<close> was called on, in order, as a trace records them;
  those among them that were started between two contexts of a run; and whether the name of
  a handler is in \<^verbatim>\<open>NotifiedHandlers\<close>, as \<^verbatim>\<open>runHandlers\<close> tests it.\<close>

fun started :: "event list \<Rightarrow> Task list" where
  "started [] = []"
| "started (Started t # evs) = t # started evs"
| "started (ev # evs) = started evs"

definition ranSince :: "PlayContext \<Rightarrow> PlayContext \<Rightarrow> Task list" where
  "ranSince pctx pctx1 = drop (length (started (trace pctx))) (started (trace pctx1))"

definition notified :: "PlayContext \<Rightarrow> Task \<Rightarrow> bool" where
  "notified pctx handler = (map_of (NotifiedHandlers pctx) (Name handler) = Some True)"

text \<open>A target where every module call succeeds with a change, and one where the third
  call of the run fails. A play of two tasks that each notify \<open>B\<close> and \<open>A\<close>, with the
  handlers \<open>A\<close> and \<open>B\<close> declared in that order; its context once the tasks have run; and
  two contexts of that play in which a name is notified that no handler has.\<close>

definition steady :: runtime where
  "steady = flaky\<lparr>moduleRun := (\<lambda>n name ps. Inr changedResult)\<rparr>"

definition failingThird :: runtime where
  "failingThird =
     flaky\<lparr>moduleRun := (\<lambda>n name ps. if n = 2 then Inl ''exit status 1'' else Inr changedResult)\<rparr>"

definition handlerA :: Task where
  "handlerA = emptyTask\<lparr>Name := ''A'', Module := ''command'',
                          Params := [(''cmd'', VStr ''nginx -s reload'')]\<rparr>"

definition handlerB :: Task where
  "handlerB = emptyTask\<lparr>Name := ''B'', Module := ''command'',
                          Params := [(''cmd'', VStr ''systemctl restart app'')]\<rparr>"

definition firstTask :: Task where
  "firstTask = echoTask\<lparr>Name := ''first'', Retries := 0, Notify := [''B'', ''A'']\<rparr>"

definition secondTask :: Task where
  "secondTask = echoTask\<lparr>Name := ''second'', Retries := 0, Notify := [''B'', ''A'']\<rparr>"

definition handlerPlay :: Play where
  "handlerPlay = emptyPlay\<lparr>Hosts := ''localhost'', GatherFacts := Some False,
                            Tasks := [firstTask, secondTask],
                            Handlers := [handlerA, handlerB]\<rparr>"

definition afterTasks :: "runtime \<Rightarrow> PlayContext" where
  "afterTasks R =
     (case tasksFrom R noDryRun (Tasks handlerPlay) (freshContext\<lparr>Play := handlerPlay\<rparr>) of
        Return (err, pctx) \<Rightarrow> pctx
      | Panic \<Rightarrow> freshContext)"

definition onlyGhost :: PlayContext where
  "onlyGhost = freshContext\<lparr>Play := handlerPlay, NotifiedHandlers := [(''ghost'', True)]\<rparr>"

definition ghostAndB :: PlayContext where
  "ghostAndB = freshContext\<lparr>Play := handlerPlay,
                             NotifiedHandlers := [(''ghost'', True), (''B'', True)]\<rparr>"

subsection \<open>Templates\<close>

text \<open>The test of \<^verbatim>\<open>interpolateString\<close> for a string that is one template block: trimmed,
  it starts with \<^verbatim>\<open>{{\<close>, ends with \<^verbatim>\<open>}}\<close> and has no \<^verbatim>\<open>{{\<close> in between; and the
  expression of that block.\<close>

definition blockExpr :: "string \<Rightarrow> string" where
  "blockExpr s =
     (let trimmed = TrimSpace s in TrimSpace (take (length trimmed - 4) (drop 2 trimmed)))"

definition wholeBlock :: "string \<Rightarrow> bool" where
  "wholeBlock s =
     (let trimmed = TrimSpace s in
      HasPrefix trimmed ''{{'' \<and> HasSuffix trimmed ''}}'' \<and> \<not> Contains (blockExpr s) ''{{'')"

text \<open>A string cut into the occurrences of the pattern, from the left and without overlap,
  each with its text and its expression, and the literal characters between them; the text
  of a segment; and what mixed-content interpolation makes of a segment: a literal character
  stays, an occurrence stays when resolving its expression gives an error and becomes the
  text of the value otherwise.\<close>

datatype segment = Literal char | Occurrence string string

function segments :: "string \<Rightarrow> segment list" where
  "segments s =
     (if s = [] then []
      else (case matchHere s of
              Some (m, g, rest) \<Rightarrow> Occurrence m g # segments rest
            | None \<Rightarrow> Literal (hd s) # segments (tl s)))"
  by pat_completeness auto
termination
  by (relation "measure length") (auto simp: matchHere_shorter)

declare segments.simps [simp del]

fun segText :: "segment \<Rightarrow> string" where
  "segText (Literal c) = [c]"
| "segText (Occurrence m g) = m"

fun render :: "golib \<Rightarrow> PlayContext \<Rightarrow> segment \<Rightarrow> string" where
  "render L pctx (Literal c) = [c]"
| "render L pctx (Occurrence m g) =
     (case resolveVariable L pctx g of Inl err \<Rightarrow> m | Inr v \<Rightarrow> sprintv L v)"

text \<open>A context with three variables, and a string with three occurrences: one with a filter
  that does not exist, one with a variable that is defined, one with a variable that is
  not.\<close>

definition namedContext :: PlayContext where
  "namedContext =
     freshContext\<lparr>Vars := [(''name'', VStr ''bolt''), (''count'', VInt 42),
                            (''settings'', VMap [(''port'', VInt 80)])]\<rparr>"

definition greeting :: string where
  "greeting = ''Hello {{ name | nofilter }}, {{ name }} and {{ other }}!''"

subsection \<open>Conditions that panic\<close>

text \<open>An operand that \<^verbatim>\<open>resolveValue\<close> cannot slice: trimmed, it is one quote character.
  A condition has such an operand where \<^verbatim>\<open>evaluateCondition\<close> resolves one: on either
  side of a comparison, after \<^verbatim>\<open>not\<close>, or as the whole condition.\<close>

definition loneQuote :: "string \<Rightarrow> bool" where
  "loneQuote s = (TrimSpace s = [CHR 0x27] \<or> TrimSpace s = [CHR 0x22])"

definition sidePanics :: "string \<Rightarrow> string \<Rightarrow> bool" where
  "sidePanics condition sep =
     (let parts = SplitN2 condition sep in
      loneQuote (TrimSpace (parts ! 0)) \<or> loneQuote (TrimSpace (parts ! 1)))"

function condPanics :: "string \<Rightarrow> bool" where
  "condPanics condition0 =
     (let condition = TrimSpace condition0 in
      if HasPrefix condition ''not '' then condPanics (drop 4 condition)
      else if HasSuffix condition ''.changed'' then False
      else if Contains condition ''=='' then sidePanics condition ''==''
      else if Contains condition ''!='' then sidePanics condition ''!=''
      else loneQuote condition)"
  by pat_completeness auto
termination
proof (relation "measure length")
  show "wf (measure length)" by simp
next
  fix condition0 condition :: string
  assume c: "condition = TrimSpace condition0" and p: "HasPrefix condition ''not ''"
  from p have "4 \<le> length condition" using HasPrefix_length by fastforce
  moreover from c have "length condition \<le> length condition0" by (simp add: length_TrimSpace)
  ultimately show "(drop 4 condition, condition0) \<in> measure length" by simp
qed

declare condPanics.simps [simp del]

text \<open>The play of the two notifying tasks as a playbook.\<close>

definition handlerPlaybook :: Playbook where
  "handlerPlaybook = \<lparr>PlaybookPath = ''site.yaml'', Plays = [handlerPlay]\<rparr>"

section \<open>Lemmas about the model\<close>

subsection \<open>Interpolation reads the variables and the registered results only\<close>

lemma lookupVariable_cong:
  "Vars p = Vars q \<Longrightarrow> Registered p = Registered q \<Longrightarrow> lookupVariable p = lookupVariable q"
  by (rule ext) (simp add: lookupVariable_def cong: option.case_cong)

lemma applyFilter_cong:
  assumes "Vars p = Vars q" and "Registered p = Registered q"
  shows "applyFilter L p = applyFilter L q"
  by (intro ext) (simp only: applyFilter_def lookupVariable_cong [OF assms])

lemma resolveVariable_cong:
  assumes "Vars p = Vars q" and "Registered p = Registered q"
  shows "resolveVariable L p = resolveVariable L q"
  by (rule ext)
    (simp only: resolveVariable_def applyFilter_cong [OF assms] lookupVariable_cong [OF assms])

lemma interpolateString_cong:
  assumes "Vars p = Vars q" and "Registered p = Registered q"
  shows "interpolateString L p = interpolateString L q"
  by (rule ext) (simp only: interpolateString_def resolveVariable_cong [OF assms])

lemma interpolateValue_cong:
  assumes "Vars p = Vars q" and "Registered p = Registered q"
  shows "interpolateValue L p v = interpolateValue L q v"
proof (induction v)
  case (VList xs)
  then have "map (interpolateValue L p) xs = map (interpolateValue L q) xs"
    by simp
  then show ?case by (simp only: interpolateValue.simps)
next
  case (VMap m)
  have "map (\<lambda>(k, item). case interpolateValue L p item of Inl err \<Rightarrow> Inl err
                          | Inr interpolated \<Rightarrow> Inr (k, interpolated)) m =
        map (\<lambda>(k, item). case interpolateValue L q item of Inl err \<Rightarrow> Inl err
                          | Inr interpolated \<Rightarrow> Inr (k, interpolated)) m"
  proof (rule map_cong [OF refl])
    fix x assume x: "x \<in> set m"
    obtain k item where kx: "x = (k, item)" by (cases x)
    with x have "item \<in> Basic_BNFs.snds x" by simp
    with VMap x have "interpolateValue L p item = interpolateValue L q item" by blast
    with kx show "(case x of (k, item) \<Rightarrow> case interpolateValue L p item of Inl err \<Rightarrow> Inl err
                          | Inr interpolated \<Rightarrow> Inr (k, interpolated)) =
        (case x of (k, item) \<Rightarrow> case interpolateValue L q item of Inl err \<Rightarrow> Inl err
                          | Inr interpolated \<Rightarrow> Inr (k, interpolated))" by simp
  qed
  then show ?case by (simp only: interpolateValue.simps)
qed (simp_all add: interpolateString_cong [OF assms])

lemma interpolateParams_cong:
  assumes "Vars p = Vars q" and "Registered p = Registered q"
  shows "interpolateParams L p ps = interpolateParams L q ps"
  by (simp add: interpolateParams_def interpolateValue_cong [OF assms])

lemma ExpandShorthand_fields [simp]:
  "Module (ExpandShorthand t) = Module t" "Name (ExpandShorthand t) = Name t"
  "Retries (ExpandShorthand t) = Retries t" "Delay (ExpandShorthand t) = Delay t"
  "Notify (ExpandShorthand t) = Notify t" "Register (ExpandShorthand t) = Register t"
  "IgnoreErrors (ExpandShorthand t) = IgnoreErrors t"
  by (simp_all add: ExpandShorthand_def split: option.splits val.splits)

subsection \<open>The retry loop\<close>

lemma wrap64_id: "- (2 ^ 63) \<le> x \<Longrightarrow> x < 2 ^ 63 \<Longrightarrow> wrap64 x = x"
  by (simp add: wrap64_def)

lemma maxAttempts_in_range:
  "0 \<le> Retries task \<Longrightarrow> Retries task < 2 ^ 63 - 1 \<Longrightarrow> maxAttempts task = Retries task + 1"
  by (simp add: maxAttempts_def wrap64_id)

lemma sleepDuration_in_range:
  "0 \<le> Delay task \<Longrightarrow> Delay task * 1000000000 < 2 ^ 63 \<Longrightarrow>
   sleepDuration task = Delay task * 1000000000"
  by (simp add: sleepDuration_def wrap64_id)

lemma attemptFrom_success:
  "\<forall>i<k. \<exists>err. moduleRun R (calls pctx + i) (Module task) ps = Inl err \<Longrightarrow>
   moduleRun R (calls pctx + k) (Module task) ps = Inr result \<Longrightarrow>
   attempt + int k \<le> maxAttempts task \<Longrightarrow> 1 \<le> attempt \<Longrightarrow>
   attemptFrom R task ps attempt pctx =
     (Inr result,
      pctx\<lparr>calls := calls pctx + k + 1,
            trace := trace pctx @ (if 1 < attempt then [Slept (sleepDuration task)] else []) @
                     attemptEvents task ps k\<rparr>)"
proof (induction k arbitrary: attempt pctx)
  case 0
  then show ?case
    by (subst attemptFrom.simps) (simp add: Let_def attemptEvents_def)
next
  case (Suc k)
  let ?p1 = "if 1 < attempt then pctx\<lparr>trace := trace pctx @ [Slept (sleepDuration task)]\<rparr>
             else pctx"
  let ?p2 = "?p1\<lparr>calls := calls ?p1 + 1, trace := trace ?p1 @ [Invoked (Module task) ps]\<rparr>"
  from Suc.prems(1) obtain err where e: "moduleRun R (calls pctx) (Module task) ps = Inl err"
    by force
  have c2: "calls ?p2 = calls pctx + 1" by simp
  have f: "\<forall>i<k. \<exists>err. moduleRun R (calls ?p2 + i) (Module task) ps = Inl err"
  proof (intro allI impI)
    fix i assume "i < k"
    then have "Suc i < Suc k" by simp
    with Suc.prems(1) have "\<exists>err. moduleRun R (calls pctx + Suc i) (Module task) ps = Inl err"
      by blast
    then show "\<exists>err. moduleRun R (calls ?p2 + i) (Module task) ps = Inl err"
      by (simp add: c2)
  qed
  have s: "moduleRun R (calls ?p2 + k) (Module task) ps = Inr result"
    using Suc.prems(2) by (simp add: c2)
  have a: "attempt + 1 + int k \<le> maxAttempts task"
    using Suc.prems(3) by simp
  have m: "attempt + 1 \<le> maxAttempts task"
    using Suc.prems(3) by simp
  have b: "1 \<le> attempt + 1"
    using Suc.prems(4) by simp
  note ih = Suc.IH [OF f s a b]
  have "attemptFrom R task ps attempt pctx = attemptFrom R task ps (attempt + 1) ?p2"
    using e m by (subst attemptFrom.simps) (simp add: Let_def)
  also note ih
  finally show ?case
    using Suc.prems(4) by (simp add: attemptEvents_def)
qed

lemma attemptFrom_failure:
  "\<forall>i<k. \<exists>err. moduleRun R (calls pctx + i) (Module task) ps = Inl err \<Longrightarrow>
   moduleRun R (calls pctx + k) (Module task) ps = Inl lastErr \<Longrightarrow>
   attempt + int k = maxAttempts task \<Longrightarrow> 1 \<le> attempt \<Longrightarrow>
   attemptFrom R task ps attempt pctx =
     (Inl lastErr,
      pctx\<lparr>calls := calls pctx + k + 1,
            trace := trace pctx @ (if 1 < attempt then [Slept (sleepDuration task)] else []) @
                     attemptEvents task ps k\<rparr>)"
proof (induction k arbitrary: attempt pctx)
  case 0
  then show ?case
    by (subst attemptFrom.simps) (simp add: Let_def attemptEvents_def)
next
  case (Suc k)
  let ?p1 = "if 1 < attempt then pctx\<lparr>trace := trace pctx @ [Slept (sleepDuration task)]\<rparr>
             else pctx"
  let ?p2 = "?p1\<lparr>calls := calls ?p1 + 1, trace := trace ?p1 @ [Invoked (Module task) ps]\<rparr>"
  from Suc.prems(1) obtain err where e: "moduleRun R (calls pctx) (Module task) ps = Inl err"
    by force
  have c2: "calls ?p2 = calls pctx + 1" by simp
  have f: "\<forall>i<k. \<exists>err. moduleRun R (calls ?p2 + i) (Module task) ps = Inl err"
  proof (intro allI impI)
    fix i assume "i < k"
    then have "Suc i < Suc k" by simp
    with Suc.prems(1) have "\<exists>err. moduleRun R (calls pctx + Suc i) (Module task) ps = Inl err"
      by blast
    then show "\<exists>err. moduleRun R (calls ?p2 + i) (Module task) ps = Inl err"
      by (simp add: c2)
  qed
  have s: "moduleRun R (calls ?p2 + k) (Module task) ps = Inl lastErr"
    using Suc.prems(2) by (simp add: c2)
  have a: "attempt + 1 + int k = maxAttempts task"
    using Suc.prems(3) by simp
  have m: "attempt + 1 \<le> maxAttempts task"
    using Suc.prems(3) by simp
  have b: "1 \<le> attempt + 1"
    using Suc.prems(4) by simp
  note ih = Suc.IH [OF f s a b]
  have "attemptFrom R task ps attempt pctx = attemptFrom R task ps (attempt + 1) ?p2"
    using e m by (subst attemptFrom.simps) (simp add: Let_def)
  also note ih
  finally show ?case
    using Suc.prems(4) by (simp add: attemptEvents_def)
qed

lemma invocations_append: "invocations (xs @ ys) = invocations xs + invocations ys"
  by (induction xs rule: invocations.induct) simp_all

lemma delays_append: "delays (xs @ ys) = delays xs @ delays ys"
  by (induction xs rule: delays.induct) simp_all

lemma invocations_attemptEvents: "invocations (attemptEvents task ps k) = k + 1"
  by (induction k) (simp_all add: attemptEvents_def)

lemma delays_attemptEvents: "delays (attemptEvents task ps k) = replicate k (sleepDuration task)"
  by (induction k) (simp_all add: attemptEvents_def)

subsection \<open>What a task and the handlers leave in the context\<close>

lemma started_append: "started (xs @ ys) = started xs @ started ys"
  by (induction xs rule: started.induct) simp_all

lemma attemptFrom_frame:
  "started (trace (snd (attemptFrom R t ps a p))) = started (trace p) \<and>
   NotifiedHandlers (snd (attemptFrom R t ps a p)) = NotifiedHandlers p \<and>
   Play (snd (attemptFrom R t ps a p)) = Play p"
proof (induction R t ps a p rule: attemptFrom.induct)
  case (1 R task ps attempt pctx)
  let ?p1 = "if 1 < attempt then pctx\<lparr>trace := trace pctx @ [Slept (sleepDuration task)]\<rparr>
             else pctx"
  let ?p2 = "?p1\<lparr>calls := calls ?p1 + 1, trace := trace ?p1 @ [Invoked (Module task) ps]\<rparr>"
  have base: "started (trace ?p2) = started (trace pctx) \<and>
      NotifiedHandlers ?p2 = NotifiedHandlers pctx \<and> Play ?p2 = Play pctx"
    by (simp add: started_append)
  show ?case
  proof (cases "moduleRun R (calls ?p1) (Module task) ps")
    case (Inr result)
    then have "attemptFrom R task ps attempt pctx = (Inr result, ?p2)"
      by (subst attemptFrom.simps) (simp add: Let_def)
    with base show ?thesis by simp
  next
    case (Inl lastErr)
    show ?thesis
    proof (cases "attempt + 1 \<le> maxAttempts task")
      case False
      with Inl have "attemptFrom R task ps attempt pctx = (Inl lastErr, ?p2)"
        by (subst attemptFrom.simps) (simp add: Let_def)
      with base show ?thesis by simp
    next
      case True
      with Inl have eq: "attemptFrom R task ps attempt pctx =
          attemptFrom R task ps (attempt + 1) ?p2"
        by (subst attemptFrom.simps) (simp add: Let_def)
      have "started (trace (snd (attemptFrom R task ps (attempt + 1) ?p2))) = started (trace ?p2) \<and>
          NotifiedHandlers (snd (attemptFrom R task ps (attempt + 1) ?p2)) = NotifiedHandlers ?p2 \<and>
          Play (snd (attemptFrom R task ps (attempt + 1) ?p2)) = Play ?p2"
        using "1.IH" [OF refl refl refl Inl True] .
      with base eq show ?thesis by simp
    qed
  qed
qed

lemma fold_update_True:
  "map_of nh n = Some True \<Longrightarrow>
   map_of (fold (\<lambda>handler. AList.update handler True) hs nh) n = Some True"
  by (induction hs arbitrary: nh) (simp_all add: update_conv')

lemma runSingleTask_effects:
  assumes "runSingleTask R e p task = ((res, err), task1, p1)"
  shows "started (trace p1) = started (trace p) @ [task]"
    and "Play p1 = Play p"
    and "Notify task = [] \<Longrightarrow> NotifiedHandlers p1 = NotifiedHandlers p"
    and "map_of (NotifiedHandlers p) n = Some True \<Longrightarrow> map_of (NotifiedHandlers p1) n = Some True"
    and "err = None \<Longrightarrow> res \<noteq> None"
proof -
  let ?p = "p\<lparr>trace := trace p @ [Started task]\<rparr>"
  let ?t = "ExpandShorthand task"
  have fr: "started (trace (snd (attemptFrom R ?t ps 1 ?p))) = started (trace p) @ [task] \<and>
      NotifiedHandlers (snd (attemptFrom R ?t ps 1 ?p)) = NotifiedHandlers p \<and>
      Play (snd (attemptFrom R ?t ps 1 ?p)) = Play p" for ps
    using attemptFrom_frame [of R ?t ps 1 ?p] by (simp add: started_append)
  have all: "started (trace p1) = started (trace p) @ [task] \<and> Play p1 = Play p \<and>
      (Notify task = [] \<longrightarrow> NotifiedHandlers p1 = NotifiedHandlers p) \<and>
      (map_of (NotifiedHandlers p) n = Some True \<longrightarrow> map_of (NotifiedHandlers p1) n = Some True) \<and>
      (err = None \<longrightarrow> res \<noteq> None)"
  proof (cases "Module ?t \<in> set (registry R)")
    case False
    with assms show ?thesis
      by (auto simp: runSingleTask_def Let_def started_append)
  next
    case True
    show ?thesis
    proof (cases "interpolateParams (lib R) ?p (Params ?t)")
      case (Inl ierr)
      with True assms show ?thesis
        by (auto simp: runSingleTask_def Let_def started_append)
    next
      case (Inr ps)
      show ?thesis
      proof (cases "DryRun e")
        case dry: True
        with True Inr assms show ?thesis
          by (auto simp: runSingleTask_def Let_def started_append)
      next
        case dry: False
        obtain out q where a: "attemptFrom R ?t ps 1 ?p = (out, q)"
          by (cases "attemptFrom R ?t ps 1 ?p")
        with fr [of ps] have q: "started (trace q) = started (trace p) @ [task]"
          "NotifiedHandlers q = NotifiedHandlers p" "Play q = Play p"
          by simp_all
        show ?thesis
        proof (cases out)
          case (Inl lastErr)
          with True Inr dry a assms q show ?thesis
            by (auto simp: runSingleTask_def Let_def)
        next
          case r: (Inr result)
          with True Inr dry a assms
          have p1: "p1 = notifyHandlers ?t result (registerResult ?t result q)"
            and e: "err = None" "res \<noteq> None"
            by (auto simp: runSingleTask_def Let_def)
          from p1 q show ?thesis
            by (auto simp: e notifyHandlers_def registerResult_def Let_def ExpandShorthand_fields
                fold_update_True)
        qed
      qed
    qed
  qed
  from all show "started (trace p1) = started (trace p) @ [task]" by simp
  from all show "Play p1 = Play p" by simp
  from all show "Notify task = [] \<Longrightarrow> NotifiedHandlers p1 = NotifiedHandlers p" by simp
  from all show "map_of (NotifiedHandlers p) n = Some True \<Longrightarrow> map_of (NotifiedHandlers p1) n = Some True"
    by simp
  from all show "err = None \<Longrightarrow> res \<noteq> None" by simp
qed

lemma notified_stats [simp]: "notified (p\<lparr>stats := st\<rparr>) h = notified p h"
  by (simp add: notified_def)

lemma handlersFrom_none:
  "\<forall>h\<in>set hs. \<not> notified p h \<Longrightarrow> handlersFrom R e hs p = (None, p)"
  by (induction hs) (simp_all add: notified_def)

lemma handlersFrom_runs:
  assumes "handlersFrom R e hs p = (err, p1)"
  shows "\<exists>ran. started (trace p1) = started (trace p) @ ran \<and> Play p1 = Play p \<and>
           set ran \<subseteq> set hs \<and>
           (\<forall>n. map_of (NotifiedHandlers p) n = Some True \<longrightarrow>
                map_of (NotifiedHandlers p1) n = Some True) \<and>
           (\<forall>h\<in>set ran. notified p1 h) \<and>
           (\<forall>er. err = Some er \<longrightarrow> (\<exists>h cause. h \<in> set ran \<and> er = HandlerError (Name h) cause))"
  using assms
proof (induction hs arbitrary: p)
  case Nil
  then show ?case by simp
next
  case (Cons h hs)
  show ?case
  proof (cases "notified p h")
    case False
    with Cons.prems have "handlersFrom R e hs p = (err, p1)"
      by (simp add: notified_def)
    from Cons.IH [OF this] show ?thesis by auto
  next
    case True
    let ?q = "p\<lparr>stats := (stats p)\<lparr>StatTasks := StatTasks (stats p) + 1\<rparr>\<rparr>"
    obtain res er h1 p2 where run: "runSingleTask R e ?q h = ((res, er), h1, p2)"
      by (metis prod.exhaust)
    note eff = runSingleTask_effects [OF run]
    have mono: "map_of (NotifiedHandlers p) n = Some True \<Longrightarrow>
        map_of (NotifiedHandlers p2) n = Some True" for n
      using eff(4) [of n] by simp
    from True have h2: "notified p2 h"
      using mono by (simp add: notified_def)
    show ?thesis
    proof (cases er)
      case (Some cause)
      with True run Cons.prems
      have "err = Some (HandlerError (Name h) cause)"
        and p1: "p1 = p2\<lparr>stats := (stats p2)\<lparr>StatFailed := StatFailed (stats p2) + 1\<rparr>\<rparr>"
        by (auto simp: notified_def Let_def)
      with eff(1,2) mono h2 show ?thesis
        by (intro exI [of _ "[h]"]) simp
    next
      case None
      let ?p3 = "p2\<lparr>stats := countStatus (case res of Some r \<Rightarrow> Status r | None \<Rightarrow> []) (stats p2)\<rparr>"
      from None True run Cons.prems have "handlersFrom R e hs ?p3 = (err, p1)"
        by (auto simp: notified_def Let_def)
      from Cons.IH [OF this] obtain ran where ran:
        "started (trace p1) = started (trace ?p3) @ ran" "Play p1 = Play ?p3"
        "set ran \<subseteq> set hs"
        "\<forall>n. map_of (NotifiedHandlers ?p3) n = Some True \<longrightarrow>
                map_of (NotifiedHandlers p1) n = Some True"
        "\<forall>h\<in>set ran. notified p1 h"
        "\<forall>er. err = Some er \<longrightarrow> (\<exists>h cause. h \<in> set ran \<and> er = HandlerError (Name h) cause)"
        by blast
      from h2 ran(4) have "notified p1 h" by (simp add: notified_def)
      with ran eff(1,2) mono show ?thesis
        by (intro exI [of _ "h # ran"]) (simp, blast)
    qed
  qed
qed

lemma handlersFrom_order:
  assumes "\<forall>h\<in>set hs. Notify h = []" and "handlersFrom R e hs p = (err, p1)"
  shows "\<exists>ran rest. started (trace p1) = started (trace p) @ ran \<and>
           filter (notified p) hs = ran @ rest \<and>
           (case err of None \<Rightarrow> rest = []
            | Some er \<Rightarrow> ran \<noteq> [] \<and> (\<exists>cause. er = HandlerError (Name (last ran)) cause))"
  using assms
proof (induction hs arbitrary: p)
  case Nil
  then show ?case by simp
next
  case (Cons h hs)
  from Cons.prems(1) have nohs: "\<forall>h\<in>set hs. Notify h = []" and noh: "Notify h = []"
    by simp_all
  show ?case
  proof (cases "notified p h")
    case False
    with Cons.prems have "handlersFrom R e hs p = (err, p1)"
      by (simp add: notified_def)
    from Cons.IH [OF nohs this] False show ?thesis by simp
  next
    case True
    let ?q = "p\<lparr>stats := (stats p)\<lparr>StatTasks := StatTasks (stats p) + 1\<rparr>\<rparr>"
    obtain res er h1 p2 where run: "runSingleTask R e ?q h = ((res, er), h1, p2)"
      by (metis prod.exhaust)
    note eff = runSingleTask_effects [OF run]
    from eff(3) [OF noh] have same: "notified p2 = notified p"
      by (simp add: notified_def fun_eq_iff)
    show ?thesis
    proof (cases er)
      case (Some cause)
      with True run Cons.prems
      have "err = Some (HandlerError (Name h) cause)"
        and p1: "p1 = p2\<lparr>stats := (stats p2)\<lparr>StatFailed := StatFailed (stats p2) + 1\<rparr>\<rparr>"
        by (auto simp: notified_def Let_def)
      with eff(1) True show ?thesis
        by (intro exI [of _ "[h]"] exI [of _ "filter (notified p) hs"]) simp
    next
      case None
      let ?p3 = "p2\<lparr>stats := countStatus (case res of Some r \<Rightarrow> Status r | None \<Rightarrow> []) (stats p2)\<rparr>"
      from None True run Cons.prems have "handlersFrom R e hs ?p3 = (err, p1)"
        by (auto simp: notified_def Let_def)
      from Cons.IH [OF nohs this] obtain ran rest where ran:
        "started (trace p1) = started (trace ?p3) @ ran"
        "filter (notified ?p3) hs = ran @ rest"
        "case err of None \<Rightarrow> rest = []
         | Some er \<Rightarrow> ran \<noteq> [] \<and> (\<exists>cause. er = HandlerError (Name (last ran)) cause)"
        by blast
      have "filter (notified ?p3) hs = filter (notified p) hs"
        using same by (simp add: fun_eq_iff cong: filter_cong)
      with ran eff(1) True show ?thesis
        by (intro exI [of _ "h # ran"] exI [of _ rest]) (auto split: option.splits)
    qed
  qed
qed

lemma runHandlers_handlersFrom:
  "runHandlers R e pctx = handlersFrom R e (Handlers (Play pctx)) pctx"
proof (cases "NotifiedHandlers pctx")
  case Nil
  then have "\<forall>h\<in>set (Handlers (Play pctx)). \<not> notified pctx h"
    by (simp add: notified_def)
  from handlersFrom_none [OF this] Nil show ?thesis
    by (simp add: runHandlers_def)
next
  case (Cons a list)
  then show ?thesis by (simp add: runHandlers_def)
qed

lemma afterTasks_steady:
  "Handlers (Play (afterTasks steady)) = [handlerA, handlerB]"
  "NotifiedHandlers (afterTasks steady) = [(''B'', True), (''A'', True)]"
  "started (trace (afterTasks steady)) = [firstTask, secondTask]"
  "fst (runHandlers steady noDryRun (afterTasks steady)) = None"
  by code_simp+

lemma handler_facts:
  "Notify handlerA = []" "Notify handlerB = []" "Name handlerA = ''A''" "Name handlerB = ''B''"
  by (simp_all add: handlerA_def handlerB_def emptyTask_def)

lemma ghostAndB_runs_B:
  "ranSince ghostAndB (snd (runHandlers steady noDryRun ghostAndB)) = [handlerB] \<and>
   fst (runHandlers steady noDryRun ghostAndB) = None"
  by code_simp

subsection \<open>Trimming, matching and interpolation\<close>

lemma leadingSpace_zero_iff:
  "(leadingSpace s = 0 \<or> length s < leadingSpace s) \<longleftrightarrow> (\<forall>w\<in>set unicodeSpaces. \<not> HasPrefix s w)"
proof -
  have ne: "\<forall>w\<in>set unicodeSpaces. w \<noteq> []"
    by (simp add: unicodeSpaces_def asciiSpace_def)
  show ?thesis
  proof (cases "filter (HasPrefix s) unicodeSpaces")
    case Nil
    then have "\<forall>w\<in>set unicodeSpaces. \<not> HasPrefix s w"
      by (simp add: filter_empty_conv)
    with Nil show ?thesis by (simp add: leadingSpace_def)
  next
    case (Cons w ws)
    then have "w \<in> set (filter (HasPrefix s) unicodeSpaces)" by simp
    then have w: "w \<in> set unicodeSpaces" "HasPrefix s w" by simp_all
    with ne have "w \<noteq> []" by blast
    moreover from w(2) have "length w \<le> length s" by (rule HasPrefix_length)
    ultimately show ?thesis using Cons w by (auto simp: leadingSpace_def)
  qed
qed

lemma TrimLeftSpace_fixed:
  "\<forall>w\<in>set unicodeSpaces. \<not> HasPrefix s w \<Longrightarrow> TrimLeftSpace s = s"
  by (subst TrimLeftSpace.simps) (simp add: leadingSpace_zero_iff)

lemma TrimLeftSpace_no_leading:
  "\<forall>w\<in>set unicodeSpaces. \<not> HasPrefix (TrimLeftSpace s) w"
proof (induction s rule: TrimLeftSpace.induct)
  case (1 s)
  show ?case
  proof (cases "leadingSpace s = 0 \<or> length s < leadingSpace s")
    case True
    then have "TrimLeftSpace s = s" by (subst TrimLeftSpace.simps) simp
    with True show ?thesis by (simp add: leadingSpace_zero_iff)
  next
    case False
    then have "TrimLeftSpace s = TrimLeftSpace (drop (leadingSpace s) s)"
      by (subst TrimLeftSpace.simps) simp
    with "1.IH" [OF False] show ?thesis by simp
  qed
qed

lemma TrimRightSpace_take: "\<exists>n. TrimRightSpace s = take n s"
proof (induction s rule: TrimRightSpace.induct)
  case (1 s)
  show ?case
  proof (cases "trailingSpace s = 0 \<or> length s < trailingSpace s")
    case True
    then have "TrimRightSpace s = s" by (subst TrimRightSpace.simps) simp
    then show ?thesis by (metis take_all order_refl)
  next
    case False
    then have "TrimRightSpace s = TrimRightSpace (take (length s - trailingSpace s) s)"
      by (subst TrimRightSpace.simps) simp
    with "1.IH" [OF False] show ?thesis by (metis take_take)
  qed
qed

lemma TrimRightSpace_idem: "TrimRightSpace (TrimRightSpace s) = TrimRightSpace s"
proof (induction s rule: TrimRightSpace.induct)
  case (1 s)
  show ?case
  proof (cases "trailingSpace s = 0 \<or> length s < trailingSpace s")
    case True
    then have "TrimRightSpace s = s" by (subst TrimRightSpace.simps) simp
    then show ?thesis by simp
  next
    case False
    then have "TrimRightSpace s = TrimRightSpace (take (length s - trailingSpace s) s)"
      by (subst TrimRightSpace.simps) simp
    with "1.IH" [OF False] show ?thesis by simp
  qed
qed

lemma HasPrefix_take: "HasPrefix (take n s) w \<Longrightarrow> HasPrefix s w"
proof -
  assume h: "HasPrefix (take n s) w"
  then have "length w \<le> length (take n s)" by (rule HasPrefix_length)
  then have "length w \<le> n" by simp
  with h show ?thesis by (simp add: HasPrefix_def min_def)
qed

lemma TrimSpace_idem: "TrimSpace (TrimSpace s) = TrimSpace s"
proof -
  obtain n where n: "TrimRightSpace (TrimLeftSpace s) = take n (TrimLeftSpace s)"
    using TrimRightSpace_take by blast
  have "\<forall>w\<in>set unicodeSpaces. \<not> HasPrefix (take n (TrimLeftSpace s)) w"
    using TrimLeftSpace_no_leading HasPrefix_take by blast
  then have "TrimLeftSpace (TrimSpace s) = TrimSpace s"
    unfolding TrimSpace_def n by (rule TrimLeftSpace_fixed)
  then show ?thesis
    by (simp add: TrimSpace_def TrimRightSpace_idem)
qed

lemma resolveVariable_TrimSpace:
  "resolveVariable L pctx (TrimSpace expr) = resolveVariable L pctx expr"
  by (simp add: resolveVariable_def TrimSpace_idem)

lemma matchHere_parts:
  assumes "matchHere s = Some (m, g, rest)"
  shows "\<exists>body. body \<noteq> [] \<and> (\<forall>c\<in>set body. notBrace c) \<and> m = ''{{'' @ body @ ''}}'' \<and>
           g = group1 body \<and> s = m @ rest"
proof -
  let ?body = "takeWhile notBrace (drop 2 s)"
  let ?after = "dropWhile notBrace (drop 2 s)"
  from assms have p: "HasPrefix s ''{{''" and b: "?body \<noteq> []" and a: "HasPrefix ?after ''}}''"
    and m: "m = ''{{'' @ ?body @ ''}}''" and g: "g = group1 ?body" and r: "rest = drop 2 ?after"
    by (auto simp: matchHere_def Let_def split: if_splits)
  from p have "s = ''{{'' @ drop 2 s"
    by (metis HasPrefix_def append_take_drop_id length_Cons list.size(3) numeral_2_eq_2)
  moreover have "drop 2 s = ?body @ ?after" by simp
  moreover from a have "?after = ''}}'' @ drop 2 ?after"
    by (metis HasPrefix_def append_take_drop_id length_Cons list.size(3) numeral_2_eq_2)
  ultimately have "s = m @ rest" using m r by (metis append.assoc)
  moreover have "\<forall>c\<in>set ?body. notBrace c" by (meson set_takeWhileD)
  ultimately show ?thesis using b m g by blast
qed

lemma FindStringSubmatch_match:
  assumes "matchHere s = Some (m, g, rest)"
  shows "FindStringSubmatch m = [m, g]"
proof -
  from matchHere_parts [OF assms] obtain body where body: "body \<noteq> []"
    "\<forall>c\<in>set body. notBrace c" "m = ''{{'' @ body @ ''}}''" "g = group1 body"
    by blast
  have t: "takeWhile notBrace (body @ ''}}'') = body"
    using body(2) by (simp add: takeWhile_append2 notBrace_def)
  have d: "dropWhile notBrace (body @ ''}}'') = ''}}''"
    using body(2) by (simp add: dropWhile_append2 notBrace_def)
  have "matchHere m = Some (m, g, [])"
    using body(1,3,4) by (simp add: matchHere_def Let_def HasPrefix_def t d)
  with body(3) show ?thesis by simp
qed

lemma concat_segText: "concat (map segText (segments s)) = s"
proof (induction s rule: segments.induct)
  case (1 s)
  show ?case
  proof (cases "s = []")
    case True
    then show ?thesis by (subst segments.simps) simp
  next
    case ne: False
    show ?thesis
    proof (cases "matchHere s")
      case None
      from "1.IH"(1) [OF ne None] have "concat (map segText (segments (tl s))) = tl s" .
      with ne None show ?thesis by (subst segments.simps) simp
    next
      case (Some a)
      then obtain m g rest where a: "a = (m, g, rest)" by (cases a)
      from "1.IH"(2) [OF ne Some [unfolded a] refl refl]
      have "concat (map segText (segments rest)) = rest" .
      moreover from Some a matchHere_parts have "s = m @ rest" by blast
      ultimately show ?thesis using ne Some a by (subst segments.simps) simp
    qed
  qed
qed

lemma ReplaceAllStringFunc_segments:
  assumes "\<And>s m g rest. matchHere s = Some (m, g, rest) \<Longrightarrow> repl m = f (Occurrence m g)"
    and "\<And>c. f (Literal c) = [c]"
  shows "ReplaceAllStringFunc s repl = concat (map f (segments s))"
proof (induction s rule: segments.induct)
  case (1 s)
  show ?case
  proof (cases "s = []")
    case True
    then show ?thesis
      by (subst ReplaceAllStringFunc.simps, subst segments.simps) simp
  next
    case ne: False
    show ?thesis
    proof (cases "matchHere s")
      case None
      from "1.IH"(1) [OF ne None]
      have "ReplaceAllStringFunc (tl s) repl = concat (map f (segments (tl s)))" .
      with ne None assms(2) show ?thesis
        by (subst ReplaceAllStringFunc.simps, subst segments.simps) simp
    next
      case (Some a)
      then obtain m g rest where a: "a = (m, g, rest)" by (cases a)
      from "1.IH"(2) [OF ne Some [unfolded a] refl refl]
      have "ReplaceAllStringFunc rest repl = concat (map f (segments rest))" .
      moreover from Some a assms(1) have "repl m = f (Occurrence m g)" by blast
      ultimately show ?thesis using ne Some a
        by (subst ReplaceAllStringFunc.simps, subst segments.simps) simp
    qed
  qed
qed

lemma interpolateString_whole:
  "wholeBlock s \<Longrightarrow> interpolateString L pctx s = resolveVariable L pctx (blockExpr s)"
  by (simp add: interpolateString_def wholeBlock_def blockExpr_def Let_def)

lemma interpolateString_mixed:
  assumes "\<not> wholeBlock s"
  shows "interpolateString L pctx s = Inr (VStr (concat (map (render L pctx) (segments s))))"
proof -
  let ?repl = "\<lambda>match.
      (let inner = FindStringSubmatch match in
       if length inner < 2 then match
       else (case resolveVariable L pctx (TrimSpace (inner ! 1)) of
               Inl err \<Rightarrow> match
             | Inr val \<Rightarrow> sprintv L val))"
  have "?repl m = render L pctx (Occurrence m g)" if "matchHere s = Some (m, g, rest)"
    for s m g rest
    using FindStringSubmatch_match [OF that] by (simp add: resolveVariable_TrimSpace)
  moreover have "render L pctx (Literal c) = [c]" for c by simp
  ultimately have "ReplaceAllStringFunc s ?repl = concat (map (render L pctx) (segments s))"
    by (rule ReplaceAllStringFunc_segments)
  with assms show ?thesis
    by (auto simp: interpolateString_def wholeBlock_def blockExpr_def Let_def)
qed





lemma greeting_facts:
  "\<not> wholeBlock greeting"
  "concat (map (render plainLib namedContext) (segments greeting)) =
     ''Hello {{ name | nofilter }}, bolt and <nil>!''"
  by code_simp+

lemma trailing_facts:
  "wholeBlock ''{{ name }} b }}''"
  "segments ''{{ name }} b }}'' = Occurrence ''{{ name }}'' ''name'' # map Literal '' b }}''"
  "resolveVariable plainLib namedContext (blockExpr ''{{ name }} b }}'') = Inr VNil"
  "wholeBlock ''{{ name | upper }} b }}''"
  "resolveVariable plainLib namedContext (blockExpr ''{{ name | upper }} b }}'') =
     Inl (UnknownFilter ''upper }} b'')"
  by code_simp+


section \<open>C1: loop variables after a loop task\<close>

text \<open>C1. The claim is that after a loop task finishes, whether every iteration succeeded
  or some iteration returned an error, \<open>Vars\<close> holds neither the loop variable nor
  \<^verbatim>\<open>loop_index\<close>. \<^verbatim>\<open>runTaskLoop\<close> deletes the two keys after its loop only; when an
  iteration returns an error it returns at once, before the deletion. On the target where
  every module call fails, the loop over \<^verbatim>\<open>[a, b]\<close> returns the error of the first
  iteration and leaves \<^verbatim>\<open>item = a\<close> and \<^verbatim>\<open>loop_index = 0\<close> in \<open>Vars\<close>.\<close>

theorem runTaskLoop_error_keeps_loop_variables:
  "snd (fst (runTaskLoop broken noDryRun freshContext loopTask)) =
     Some (ModuleError ''exit status 1'') \<and>
   map_of (Vars (snd (snd (runTaskLoop broken noDryRun freshContext loopTask)))) ''item'' =
     Some (VStr ''a'') \<and>
   map_of (Vars (snd (snd (runTaskLoop broken noDryRun freshContext loopTask)))) ''loop_index'' =
     Some (VInt 0)"
  by code_simp

section \<open>C2: mixed-content interpolation\<close>

text \<open>C2 (as amended). \<^verbatim>\<open>interpolateString\<close> tests whether the string, trimmed, starts
  with \<^verbatim>\<open>{{\<close>, ends with \<^verbatim>\<open>}}\<close> and has no \<^verbatim>\<open>{{\<close> in between. For every string that
  fails this test it returns no error and returns a string: the input with its literal text
  unchanged and each \<^verbatim>\<open>{{ expr }}\<close> occurrence replaced on its own, by itself when
  resolving the expression returns an error, and by the text \<^verbatim>\<open>%v\<close> prints for the resolved
  value otherwise. For every string that passes the test, also one that is an occurrence
  followed by literal text that ends with \<^verbatim>\<open>}}\<close>, it resolves all that stands between the
  outer braces as one expression and returns the value, or the error, of that.\<close>

theorem interpolateString_mixed_content:
  "(\<not> wholeBlock s \<longrightarrow>
      interpolateString L pctx s = Inr (VStr (concat (map (render L pctx) (segments s))))) \<and>
   concat (map segText (segments s)) = s \<and>
   (wholeBlock s \<longrightarrow> interpolateString L pctx s = resolveVariable L pctx (blockExpr s))"
  using interpolateString_mixed [of s L pctx] interpolateString_whole [of s L pctx]
    concat_segText [of s]
  by simp

text \<open>In a string that fails the test, an occurrence with an unknown filter stays, a defined
  variable is replaced by its value, and a variable that is not defined, which resolves to
  \<^verbatim>\<open>nil\<close> without an error, is replaced by \<^verbatim>\<open><nil>\<close>. The string \<^verbatim>\<open>{{ name }} b }}\<close>
  passes the test: the expression is \<^verbatim>\<open>name }} b\<close>, no variable, and the result is
  \<^verbatim>\<open>nil\<close>; in \<^verbatim>\<open>{{ name | upper }} b }}\<close> the filter is \<^verbatim>\<open>upper }} b\<close>, and the result
  is the error of an unknown filter.\<close>

theorem interpolateString_mixed_content_witness:
  "\<not> wholeBlock greeting \<and>
   interpolateString plainLib namedContext greeting =
     Inr (VStr ''Hello {{ name | nofilter }}, bolt and <nil>!'') \<and>
   wholeBlock ''{{ name }} b }}'' \<and>
   segments ''{{ name }} b }}'' =
     Occurrence ''{{ name }}'' ''name'' # map Literal '' b }}'' \<and>
   interpolateString plainLib namedContext ''{{ name }} b }}'' = Inr VNil \<and>
   wholeBlock ''{{ name | upper }} b }}'' \<and>
   interpolateString plainLib namedContext ''{{ name | upper }} b }}'' =
     Inl (UnknownFilter ''upper }} b'')"
  using interpolateString_mixed_content [of greeting plainLib namedContext]
    interpolateString_mixed_content [of "''{{ name }} b }}''" plainLib namedContext]
    interpolateString_mixed_content [of "''{{ name | upper }} b }}''" plainLib namedContext]
  by (simp add: greeting_facts trailing_facts)

text \<open>The claim as worded, that an occurrence whose expression does not resolve is left
  verbatim, fails for a variable that is not defined.\<close>

theorem interpolateString_undefined_counterexample:
  "\<not> wholeBlock ''Hello {{ undefined }}!'' \<and>
   map_of (Vars namedContext) ''undefined'' = None \<and>
   map_of (Registered namedContext) ''undefined'' = None \<and>
   interpolateString plainLib namedContext ''Hello {{ undefined }}!'' =
     Inr (VStr ''Hello <nil>!'')"
  by code_simp

section \<open>C3: whole-string interpolation keeps the type\<close>



section \<open>The module key of a raw task\<close>

lemma findModule_no_key:
  "moduleKeys raw = [] \<Longrightarrow> findModule raw t = Inr t"
  by (induction raw arbitrary: t) (auto simp: moduleKeys_def split: if_splits)

lemma findModule_second_key:
  "moduleKeys raw = b # rest \<Longrightarrow> Module t \<noteq> [] \<Longrightarrow>
   findModule raw t = Inl (MultipleModules (Module t) b)"
  by (induction raw arbitrary: t) (auto simp: moduleKeys_def split: if_splits)

lemma findModule_one_key:
  "moduleKeys raw = [k] \<Longrightarrow> Module t = [] \<Longrightarrow>
   \<exists>v. findModule raw t = Inr (t\<lparr>Module := k, Params := moduleParams v\<rparr>)"
proof (induction raw arbitrary: t)
  case Nil
  then show ?case by (simp add: moduleKeys_def)
next
  case (Cons e raw)
  obtain key v where e: "e = (key, v)" by (cases e)
  show ?case
  proof (cases "key \<in> set knownTaskFields")
    case True
    with Cons e show ?thesis by (simp add: moduleKeys_def)
  next
    case False
    with Cons.prems e have "key = k" and "moduleKeys raw = []"
      by (simp_all add: moduleKeys_def)
    with False Cons.prems e show ?thesis
      by (auto simp: findModule_no_key)
  qed
qed

lemma findModule_two_keys:
  "moduleKeys raw = a # b # rest \<Longrightarrow> a \<noteq> [] \<Longrightarrow> Module t = [] \<Longrightarrow>
   findModule raw t = Inl (MultipleModules a b)"
proof (induction raw arbitrary: t)
  case Nil
  then show ?case by (simp add: moduleKeys_def)
next
  case (Cons e raw)
  obtain key v where e: "e = (key, v)" by (cases e)
  show ?case
  proof (cases "key \<in> set knownTaskFields")
    case True
    with Cons e show ?thesis by (simp add: moduleKeys_def)
  next
    case False
    with Cons.prems e have "key = a" and "moduleKeys raw = b # rest"
      by (simp_all add: moduleKeys_def)
    with False Cons.prems e show ?thesis
      by (simp add: findModule_second_key)
  qed
qed

text \<open>
  C4 (as amended). A raw task without a module key parses to a task without module,
  which validation refuses. With exactly one module key, and that key not the empty
  string, the key becomes the module name, and validation refuses the task only for
  negative retries or a negative delay. With two or more module keys, the first of them
  visited not empty, parsing fails with an error naming the first two.
\<close>

theorem parseRawTask_module_key:
  "(moduleKeys raw = [] \<longrightarrow>
      (\<exists>t. parseRawTask raw = Inr t \<and> Module t = [] \<and> Validate t = Some NoModule)) \<and>
   (moduleKeys raw = [k] \<and> k \<noteq> [] \<longrightarrow>
      (\<exists>t. parseRawTask raw = Inr t \<and> Module t = k \<and>
           Retries t = intField raw ''retries'' \<and> Delay t = intField raw ''delay'' \<and>
           (Validate t = None) = (0 \<le> Retries t \<and> 0 \<le> Delay t))) \<and>
   (moduleKeys raw = a # b # rest \<and> a \<noteq> [] \<longrightarrow>
      parseRawTask raw = Inl (MultipleModules a b))"
proof (intro conjI impI)
  assume "moduleKeys raw = []"
  then show "\<exists>t. parseRawTask raw = Inr t \<and> Module t = [] \<and> Validate t = Some NoModule"
    by (simp add: parseRawTask_def findModule_no_key emptyTask_def Validate_def)
next
  assume h: "moduleKeys raw = [k] \<and> k \<noteq> []"
  let ?t0 = "emptyTask\<lparr>Name := stringField raw ''name'',
                  When := stringField raw ''when'',
                  Register := stringField raw ''register'',
                  LoopVar := stringField raw ''loop_var'',
                  IgnoreErrors := (boolField raw ''ignore_errors'' = Some True),
                  Retries := intField raw ''retries'',
                  Delay := intField raw ''delay'',
                  Become := boolField raw ''become'',
                  BecomeUser := stringField raw ''become_user'',
                  ChangedWhen := stringField raw ''changed_when'',
                  FailedWhen := stringField raw ''failed_when'',
                  Notify := parseNotify raw,
                  Loop := parseLoop raw\<rparr>"
  have "Module ?t0 = []" by (simp add: emptyTask_def)
  with h obtain v where "findModule raw ?t0 = Inr (?t0\<lparr>Module := k, Params := moduleParams v\<rparr>)"
    using findModule_one_key [of raw k ?t0] by blast
  with h show "\<exists>t. parseRawTask raw = Inr t \<and> Module t = k \<and>
           Retries t = intField raw ''retries'' \<and> Delay t = intField raw ''delay'' \<and>
           (Validate t = None) = (0 \<le> Retries t \<and> 0 \<le> Delay t)"
    by (auto simp: parseRawTask_def Validate_def)
next
  assume "moduleKeys raw = a # b # rest \<and> a \<noteq> []"
  then show "parseRawTask raw = Inl (MultipleModules a b)"
    by (simp add: parseRawTask_def findModule_two_keys emptyTask_def)
qed

lemma knownTaskFields_simps:
  "''name'' \<in> set knownTaskFields" "''retries'' \<in> set knownTaskFields"
  "''when'' \<in> set knownTaskFields"
  "''apt'' \<notin> set knownTaskFields" "''brew'' \<notin> set knownTaskFields"
  by (simp_all add: knownTaskFields_def)

text \<open>One module key, and yet no task: validation refuses negative retries.\<close>

theorem parseRawTask_negative_retries_counterexample:
  "length (moduleKeys rawNegativeRetries) = 1 \<and>
   map_sum id Validate (parseRawTask rawNegativeRetries) = Inr (Some NegativeRetries)"
  by (simp add: rawNegativeRetries_def moduleKeys_def knownTaskFields_simps parseRawTask_def
      Validate_def intField_def emptyTask_def)

theorem parseRawTask_module_key_witness:
  "moduleKeys rawNoModule = [] \<and>
   map_sum id Validate (parseRawTask rawNoModule) = Inr (Some NoModule) \<and>
   moduleKeys rawNginx = [''apt''] \<and>
   map_sum id (\<lambda>t. (Module t, Validate t)) (parseRawTask rawNginx) = Inr (''apt'', None) \<and>
   moduleKeys rawTwoModules = [''apt'', ''brew''] \<and>
   parseRawTask rawTwoModules = Inl (MultipleModules ''apt'' ''brew'')"
proof -
  have k0: "moduleKeys rawNoModule = []"
    by (simp add: rawNoModule_def moduleKeys_def knownTaskFields_simps)
  have k1: "moduleKeys rawNginx = [''apt'']"
    by (simp add: rawNginx_def moduleKeys_def knownTaskFields_simps)
  have k2: "moduleKeys rawTwoModules = [''apt'', ''brew'']"
    by (simp add: rawTwoModules_def moduleKeys_def knownTaskFields_simps)
  have r: "intField rawNginx ''retries'' = 2" "intField rawNginx ''delay'' = 0"
    by (simp_all add: rawNginx_def intField_def)
  from k0 k1 k2 r
    parseRawTask_module_key [of rawNoModule "''apt''" "''apt''" "''brew''" "[]"]
    parseRawTask_module_key [of rawNginx "''apt''" "''apt''" "''brew''" "[]"]
    parseRawTask_module_key [of rawTwoModules "''apt''" "''apt''" "''brew''" "[]"]
  show ?thesis
    by auto
qed

section \<open>Retries\<close>

text \<open>
  C5 (as amended). Take a task whose module is registered and whose parameters
  interpolate, outside dry-run mode, with retries \<open>r\<close> from 0 to below \<open>2 ^ 63 - 2\<close>
  and a delay of at most 9223372036 seconds. If the module fails on the first \<open>k \<le> r\<close>
  attempts and succeeds on the next, the task succeeds after exactly \<open>k + 1\<close>
  invocations, with a sleep of the delay before each attempt but the first. If all
  \<open>r + 1\<close> attempts fail, the task fails with the last error after \<open>r + 1\<close>
  invocations and \<open>r\<close> sleeps.
\<close>

theorem runSingleTask_retries:
  assumes reg: "Module task \<in> set (registry R)"
    and interp: "interpolateParams (lib R) pctx (Params (ExpandShorthand task)) = Inr ps"
    and dry: "\<not> DryRun e"
    and r: "0 \<le> Retries task" "Retries task < 2 ^ 63 - 2"
    and d: "0 \<le> Delay task" "Delay task * 1000000000 < 2 ^ 63"
  shows
    "(int k \<le> Retries task \<and>
      (\<forall>i<k. \<exists>err. moduleRun R (calls pctx + i) (Module task) ps = Inl err) \<and>
      moduleRun R (calls pctx + k) (Module task) ps = Inr result \<longrightarrow>
        (\<exists>res task1 pctx1.
           runSingleTask R e pctx task = ((Some res, None), task1, pctx1) \<and>
           Status res = (if Changed result then ''changed'' else ''ok'') \<and>
           trace pctx1 = trace pctx @ Started task # attemptEvents task ps k \<and>
           invocations (trace pctx1) = invocations (trace pctx) + k + 1 \<and>
           delays (trace pctx1) = delays (trace pctx) @ replicate k (Delay task * 1000000000))) \<and>
     ((\<forall>i<nat (Retries task). \<exists>err. moduleRun R (calls pctx + i) (Module task) ps = Inl err) \<and>
      moduleRun R (calls pctx + nat (Retries task)) (Module task) ps = Inl lastErr \<longrightarrow>
        (\<exists>res task1 pctx1.
           runSingleTask R e pctx task = ((Some res, Some (ModuleError lastErr)), task1, pctx1) \<and>
           Status res = ''failed'' \<and>
           trace pctx1 = trace pctx @ Started task # attemptEvents task ps (nat (Retries task)) \<and>
           invocations (trace pctx1) = invocations (trace pctx) + nat (Retries task) + 1 \<and>
           delays (trace pctx1) =
             delays (trace pctx) @ replicate (nat (Retries task)) (Delay task * 1000000000)))"
proof -
  let ?p = "pctx\<lparr>trace := trace pctx @ [Started task]\<rparr>"
  let ?t = "ExpandShorthand task"
  have ip: "interpolateParams (lib R) ?p (Params ?t) = Inr ps"
    using interp interpolateParams_cong [of ?p pctx "lib R" "Params ?t"] by simp
  have ma: "maxAttempts ?t = Retries task + 1"
    using r maxAttempts_in_range [of ?t] by simp
  have sd: "sleepDuration ?t = Delay task * 1000000000"
    using d sleepDuration_in_range [of ?t] by simp
  have ev: "attemptEvents ?t ps n = attemptEvents task ps n" for n
    by (simp add: attemptEvents_def sleepDuration_def)
  have sd': "sleepDuration task = Delay task * 1000000000"
    using sd by (simp add: sleepDuration_def)
  have run: "runSingleTask R e pctx task =
      (case attemptFrom R ?t ps 1 ?p of
         (Inl lastErr, pctx1) \<Rightarrow>
           ((Some \<lparr>Status = ''failed'', TaskChanged = False, TaskData = [],
                   Error = Some (ModuleError lastErr)\<rparr>,
             Some (ModuleError lastErr)), ?t, pctx1)
       | (Inr result, pctx1) \<Rightarrow>
           ((Some \<lparr>Status = (if Changed result then ''changed'' else ''ok''),
                   TaskChanged = Changed result, TaskData = Data result,
                   Error = None\<rparr>, None),
            ?t, notifyHandlers ?t result (registerResult ?t result pctx1)))"
    using reg ip dry by (simp add: runSingleTask_def Let_def)
  have tr: "trace (notifyHandlers t x (registerResult t x q)) = trace q" for t x q
    by (simp add: notifyHandlers_def registerResult_def Let_def)
  show ?thesis
  proof (intro conjI impI)
    assume h: "int k \<le> Retries task \<and>
      (\<forall>i<k. \<exists>err. moduleRun R (calls pctx + i) (Module task) ps = Inl err) \<and>
      moduleRun R (calls pctx + k) (Module task) ps = Inr result"
    have "attemptFrom R ?t ps 1 ?p =
        (Inr result, ?p\<lparr>calls := calls ?p + k + 1,
            trace := trace ?p @ (if 1 < (1::int) then [Slept (sleepDuration ?t)] else []) @
                     attemptEvents ?t ps k\<rparr>)"
      using h ma by (intro attemptFrom_success) simp_all
    then show "\<exists>res task1 pctx1.
           runSingleTask R e pctx task = ((Some res, None), task1, pctx1) \<and>
           Status res = (if Changed result then ''changed'' else ''ok'') \<and>
           trace pctx1 = trace pctx @ Started task # attemptEvents task ps k \<and>
           invocations (trace pctx1) = invocations (trace pctx) + k + 1 \<and>
           delays (trace pctx1) = delays (trace pctx) @ replicate k (Delay task * 1000000000)"
      by (simp add: run tr ev invocations_append delays_append invocations_attemptEvents
          delays_attemptEvents sd')
  next
    assume h: "(\<forall>i<nat (Retries task). \<exists>err. moduleRun R (calls pctx + i) (Module task) ps = Inl err) \<and>
      moduleRun R (calls pctx + nat (Retries task)) (Module task) ps = Inl lastErr"
    have "attemptFrom R ?t ps 1 ?p =
        (Inl lastErr, ?p\<lparr>calls := calls ?p + nat (Retries task) + 1,
            trace := trace ?p @ (if 1 < (1::int) then [Slept (sleepDuration ?t)] else []) @
                     attemptEvents ?t ps (nat (Retries task))\<rparr>)"
      using h ma r by (intro attemptFrom_failure) simp_all
    then show "\<exists>res task1 pctx1.
           runSingleTask R e pctx task = ((Some res, Some (ModuleError lastErr)), task1, pctx1) \<and>
           Status res = ''failed'' \<and>
           trace pctx1 = trace pctx @ Started task # attemptEvents task ps (nat (Retries task)) \<and>
           invocations (trace pctx1) = invocations (trace pctx) + nat (Retries task) + 1 \<and>
           delays (trace pctx1) =
             delays (trace pctx) @ replicate (nat (Retries task)) (Delay task * 1000000000)"
      by (simp add: run tr ev invocations_append delays_append invocations_attemptEvents
          delays_attemptEvents sd')
  qed
qed

text \<open>Retries 2, delay 0: two failures and a success are 3 invocations and 2 delays;
  three failures are 3 invocations, 2 delays and the last error.\<close>

theorem runSingleTask_retries_witness:
  "(\<exists>res task1 pctx1.
      runSingleTask flaky noDryRun freshContext echoTask = ((Some res, None), task1, pctx1) \<and>
      Status res = ''changed'' \<and> invocations (trace pctx1) = 3 \<and>
      delays (trace pctx1) = [0, 0]) \<and>
   (\<exists>res task1 pctx1.
      runSingleTask broken noDryRun freshContext echoTask =
        ((Some res, Some (ModuleError ''exit status 1'')), task1, pctx1) \<and>
      Status res = ''failed'' \<and> invocations (trace pctx1) = 3 \<and>
      delays (trace pctx1) = [0, 0])"
proof -
  have ps: "interpolateParams plainLib freshContext (Params (ExpandShorthand echoTask)) =
      Inr [(''cmd'', VStr ''echo hi'')]"
    by code_simp
  have t: "Module echoTask = ''command''" "Retries echoTask = 2" "Delay echoTask = 0"
    by (simp_all add: echoTask_def emptyTask_def)
  have c: "calls freshContext = 0" "trace freshContext = []"
    by (simp_all add: freshContext_def startOfRun_def)
  have f: "lib flaky = plainLib" "registry flaky = [''command'']"
    "moduleRun flaky = (\<lambda>n name ps. if n < 2 then Inl ''exit status 1'' else Inr changedResult)"
    by (simp_all add: flaky_def)
  have b: "lib broken = plainLib" "registry broken = [''command'']"
    "moduleRun broken = (\<lambda>n name ps. Inl ''exit status 1'')"
    by (simp_all add: broken_def flaky_def)
  have ch: "Changed changedResult" by (simp add: changedResult_def)
  have n: "\<not> DryRun noDryRun" by (simp add: noDryRun_def)
  from runSingleTask_retries [of echoTask flaky freshContext "[(''cmd'', VStr ''echo hi'')]"
      noDryRun 2 changedResult "''exit status 1''"]
    runSingleTask_retries [of echoTask broken freshContext "[(''cmd'', VStr ''echo hi'')]"
      noDryRun 2 changedResult "''exit status 1''"]
  show ?thesis
    using ps t c f b ch n by (simp add: numeral_2_eq_2 numeral_3_eq_3) blast
qed

text \<open>With retries \<open>2 ^ 63 - 1\<close> the sum \<open>retries + 1\<close> wraps to a negative number
  and is raised to 1: the module is invoked once and the task fails, though its second
  retry would have succeeded.\<close>

theorem runSingleTask_retries_overflow_counterexample:
  "fst (fst (runSingleTask flaky noDryRun freshContext
          (echoTask\<lparr>Retries := 9223372036854775807\<rparr>))) =
     Some \<lparr>Status = ''failed'', TaskChanged = False, TaskData = [],
           Error = Some (ModuleError ''exit status 1'')\<rparr> \<and>
   invocations (trace (snd (snd (runSingleTask flaky noDryRun freshContext
          (echoTask\<lparr>Retries := 9223372036854775807\<rparr>))))) = 1"
  by code_simp

section \<open>C6: handlers run in declaration order\<close>

text \<open>C6 (as amended). In a play whose handlers notify no handler, \<^verbatim>\<open>runHandlers\<close> starts, in the
  order of declaration and each declared handler at most once, the declared handlers whose
  name is in \<^verbatim>\<open>NotifiedHandlers\<close>: all of them when it returns no error, and otherwise
  those up to the first one that fails, whose error it returns; the notified handlers
  declared after that one are not run. How many tasks notified a handler makes no
  difference, \<^verbatim>\<open>NotifiedHandlers\<close> being a set of names.\<close>

theorem runHandlers_declaration_order:
  assumes "\<forall>h\<in>set (Handlers (Play pctx)). Notify h = []"
    and "runHandlers R e pctx = (err, pctx1)"
  shows "started (trace pctx1) = started (trace pctx) @ ranSince pctx pctx1 \<and>
         (\<exists>rest. filter (notified pctx) (Handlers (Play pctx)) = ranSince pctx pctx1 @ rest \<and>
            (case err of
               None \<Rightarrow> rest = []
             | Some er \<Rightarrow>
                 ranSince pctx pctx1 \<noteq> [] \<and>
                 (\<exists>cause. er = HandlerError (Name (last (ranSince pctx pctx1))) cause)))"
proof -
  from assms(2) have "handlersFrom R e (Handlers (Play pctx)) pctx = (err, pctx1)"
    by (simp add: runHandlers_handlersFrom)
  from handlersFrom_order [OF assms(1) this] obtain ran rest where ran:
    "started (trace pctx1) = started (trace pctx) @ ran"
    "filter (notified pctx) (Handlers (Play pctx)) = ran @ rest"
    "case err of None \<Rightarrow> rest = []
     | Some er \<Rightarrow> ran \<noteq> [] \<and> (\<exists>cause. er = HandlerError (Name (last ran)) cause)"
    by blast
  from ran(1) have "ranSince pctx pctx1 = ran"
    by (simp add: ranSince_def)
  with ran show ?thesis by blast
qed

text \<open>With the handlers \<open>A\<close>, \<open>B\<close> declared in that order and two changed tasks that each
  notify \<open>B\<close> and \<open>A\<close>, \<open>A\<close> is run once and then \<open>B\<close> once.\<close>

theorem runHandlers_declaration_order_witness:
  "map Notify (Handlers (Play (afterTasks steady))) = [[], []] \<and>
   Notify firstTask = [''B'', ''A''] \<and> Notify secondTask = [''B'', ''A''] \<and>
   started (trace (afterTasks steady)) = [firstTask, secondTask] \<and>
   started (trace (snd (runHandlers steady noDryRun (afterTasks steady)))) =
     [firstTask, secondTask, handlerA, handlerB]"
proof -
  let ?after = "snd (runHandlers steady noDryRun (afterTasks steady))"
  have "runHandlers steady noDryRun (afterTasks steady) = (None, ?after)"
    by (simp add: prod_eq_iff afterTasks_steady)
  moreover have "\<forall>h\<in>set (Handlers (Play (afterTasks steady))). Notify h = []"
    by (simp add: afterTasks_steady handler_facts)
  ultimately have "started (trace ?after) =
      started (trace (afterTasks steady)) @ ranSince (afterTasks steady) ?after \<and>
      (\<exists>rest. filter (notified (afterTasks steady)) (Handlers (Play (afterTasks steady))) =
         ranSince (afterTasks steady) ?after @ rest \<and> rest = [])"
    using runHandlers_declaration_order [of "afterTasks steady" steady noDryRun None ?after]
    by simp
  then have "started (trace ?after) = [firstTask, secondTask, handlerA, handlerB]"
    by (simp add: afterTasks_steady handler_facts notified_def)
  then show ?thesis
    by (simp add: afterTasks_steady handler_facts firstTask_def secondTask_def)
qed

text \<open>The claim as worded, that exactly the notified handlers are run, fails when a handler
  fails: with \<open>A\<close> and \<open>B\<close> both notified and the call of \<open>A\<close> failing, \<open>B\<close> is not run.\<close>

theorem runHandlers_stops_at_failure_counterexample:
  "map Name (filter (notified (afterTasks failingThird))
               (Handlers (Play (afterTasks failingThird)))) = [''A'', ''B''] \<and>
   fst (runHandlers failingThird noDryRun (afterTasks failingThird)) =
     Some (HandlerError ''A'' (ModuleError ''exit status 1'')) \<and>
   map Name (ranSince (afterTasks failingThird)
               (snd (runHandlers failingThird noDryRun (afterTasks failingThird)))) = [''A'']"
  by code_simp

section \<open>Truthiness of numeric zero\<close>

text \<open>
  C7. The truthiness function is false for the \<^verbatim>\<open>int\<close> zero, but the \<^verbatim>\<open>float64\<close>
  zero and the \<^verbatim>\<open>int64\<close> zero are truthy: the comparison with 0 in the numeric case
  is between interface values, and an \<^verbatim>\<open>int64\<close> or \<^verbatim>\<open>float64\<close> never equals the
  \<^verbatim>\<open>int\<close> 0.
\<close>

theorem isTruthy_zero_float64_int64:
  "isTruthy (VFloat 0) \<and> isTruthy (VInt64 0) \<and> \<not> isTruthy (VInt 0)"
  by simp

section \<open>Variable precedence\<close>

lemma map_of_assignAll: "map_of (assignAll src dst) = map_of dst ++ map_of (rev src)"
proof (induction src arbitrary: dst)
  case Nil
  show ?case by (simp add: assignAll_def)
next
  case (Cons e src)
  obtain k v where e: "e = (k, v)" by (cases e)
  have "map_of (assignAll (e # src) dst) = map_of (assignAll src (AList.update k v dst))"
    by (simp add: assignAll_def e)
  also have "\<dots> = map_of (AList.update k v dst) ++ map_of (rev src)"
    by (rule Cons.IH)
  also have "\<dots> = map_of dst ++ map_of (rev (e # src))"
    by (simp add: e update_conv' map_add_def fun_eq_iff split: option.splits)
  finally show ?case .
qed

lemma map_of_rev_distinct: "distinct (map fst m) \<Longrightarrow> map_of (rev m) = map_of m"
proof (induction m)
  case Nil
  show ?case by simp
next
  case (Cons e m)
  then have "map_of m (fst e) = None"
    by (simp add: map_of_eq_None_iff)
  with Cons show ?case
    by (cases e) (auto simp: map_add_def fun_eq_iff split: option.splits)
qed

lemma fold_assignAll:
  "list_all wfMap (map f roles) \<Longrightarrow>
   map_of (fold (\<lambda>role. assignAll (f role)) roles acc) k =
     (case lastDefining (map f roles) k of Some v \<Rightarrow> Some v | None \<Rightarrow> map_of acc k)"
proof (induction roles arbitrary: acc)
  case Nil
  show ?case by simp
next
  case (Cons r roles)
  from Cons.prems have wf: "distinct (map fst (f r))"
    by (simp add: wfMap_def)
  from Cons.prems have rest: "list_all wfMap (map f roles)"
    by simp
  show ?case
    using Cons.IH [OF rest, of "assignAll (f r) acc"]
    by (simp add: map_of_assignAll map_of_rev_distinct [OF wf] map_add_def
        split: option.splits)
qed

text \<open>
  C8. The merged variable map gives every key the value of the source of highest
  precedence that defines it: play vars over role vars over role defaults, a later role
  over an earlier one.
\<close>

theorem MergeRoleVars_precedence:
  assumes "list_all wfMap (map Defaults roles)"
    and "list_all wfMap (map RoleVars roles)"
    and "wfMap playVars"
  shows "map_of (MergeRoleVars roles playVars) k = byPrecedence roles playVars k"
proof -
  have pv: "map_of (rev playVars) = map_of playVars"
    using assms(3) by (simp add: wfMap_def map_of_rev_distinct)
  show ?thesis
    by (simp add: MergeRoleVars_def byPrecedence_def Let_def map_of_assignAll pv
        fold_assignAll [OF assms(1)] fold_assignAll [OF assms(2)] map_add_def
        split: option.splits)
qed

text \<open>Role defaults \<open>{port: 80}\<close> and role vars \<open>{port: 8080}\<close> give 8080; the
  play var \<open>{port: 9000}\<close> gives 9000.\<close>

theorem MergeRoleVars_precedence_witness:
  "map_of (MergeRoleVars [webRole] []) ''port'' = Some (VInt 8080) \<and>
   map_of (MergeRoleVars [webRole] [(''port'', VInt 9000)]) ''port'' = Some (VInt 9000)"
  using MergeRoleVars_precedence [of "[webRole]" "[]" "''port''"]
    MergeRoleVars_precedence [of "[webRole]" "[(''port'', VInt 9000)]" "''port''"]
  by (simp add: wfMap_def webRole_def byPrecedence_def)

section \<open>C9: what \<open>Run\<close> returns\<close>

text \<open>C9. The claim is that for every playbook \<^verbatim>\<open>Run\<close> returns a \<^verbatim>\<open>RunResult\<close> and a nil
  error. For the playbook whose task has the condition \<^verbatim>\<open>when: "'"\<close> it returns nothing:
  \<^verbatim>\<open>resolveValue\<close> takes the one character for a quoted string and slices
  \<^verbatim>\<open>s[1 : len(s)-1]\<close>, that is \<^verbatim>\<open>s[1:0]\<close>, which panics, and nothing on the way up to
  \<^verbatim>\<open>Run\<close> recovers.\<close>

theorem Run_panics_on_lone_quote:
  "Run flaky noDryRun quotePlaybook = Panic"
  by code_simp

section \<open>C10: notified names that no handler has\<close>

text \<open>C10. A notified name that no declared handler has is ignored by \<^verbatim>\<open>runHandlers\<close>:
  every task it starts is a declared handler whose name is in \<^verbatim>\<open>NotifiedHandlers\<close>, every
  error it returns is the failure of such a handler that it started, and when no declared
  handler's name is notified it returns no error and leaves the context as it was.\<close>

theorem runHandlers_undeclared_names_ignored:
  assumes "runHandlers R e pctx = (err, pctx1)"
  shows "started (trace pctx1) = started (trace pctx) @ ranSince pctx pctx1 \<and>
         (\<forall>h\<in>set (ranSince pctx pctx1). h \<in> set (Handlers (Play pctx)) \<and> notified pctx1 h) \<and>
         (\<forall>er. err = Some er \<longrightarrow>
            (\<exists>h cause. h \<in> set (ranSince pctx pctx1) \<and> er = HandlerError (Name h) cause)) \<and>
         ((\<forall>h\<in>set (Handlers (Play pctx)). \<not> notified pctx h) \<longrightarrow> err = None \<and> pctx1 = pctx)"
proof -
  from assms have hf: "handlersFrom R e (Handlers (Play pctx)) pctx = (err, pctx1)"
    by (simp add: runHandlers_handlersFrom)
  from handlersFrom_runs [OF hf] obtain ran where ran:
    "started (trace pctx1) = started (trace pctx) @ ran"
    "set ran \<subseteq> set (Handlers (Play pctx))"
    "\<forall>h\<in>set ran. notified pctx1 h"
    "\<forall>er. err = Some er \<longrightarrow> (\<exists>h cause. h \<in> set ran \<and> er = HandlerError (Name h) cause)"
    by blast
  from ran(1) have eq: "ranSince pctx pctx1 = ran"
    by (simp add: ranSince_def)
  have "err = None \<and> pctx1 = pctx" if "\<forall>h\<in>set (Handlers (Play pctx)). \<not> notified pctx h"
    using handlersFrom_none [OF that, of R e] hf by simp
  with ran eq show ?thesis by blast
qed

text \<open>With only the name \<open>ghost\<close> notified nothing happens; with \<open>ghost\<close> and \<open>B\<close>
  notified, \<open>B\<close> alone is run, and no error is returned.\<close>

theorem runHandlers_undeclared_names_ignored_witness:
  "map_of (NotifiedHandlers onlyGhost) ''ghost'' = Some True \<and>
   map Name (Handlers (Play onlyGhost)) = [''A'', ''B''] \<and>
   filter (notified onlyGhost) (Handlers (Play onlyGhost)) = [] \<and>
   runHandlers steady noDryRun onlyGhost = (None, onlyGhost) \<and>
   map fst (NotifiedHandlers ghostAndB) = [''ghost'', ''B''] \<and>
   ranSince ghostAndB (snd (runHandlers steady noDryRun ghostAndB)) = [handlerB] \<and>
   fst (runHandlers steady noDryRun ghostAndB) = None"
  using runHandlers_undeclared_names_ignored [of steady noDryRun onlyGhost
      "fst (runHandlers steady noDryRun onlyGhost)"
      "snd (runHandlers steady noDryRun onlyGhost)"]
    ghostAndB_runs_B
  by (simp add: onlyGhost_def ghostAndB_def handlerPlay_def handler_facts notified_def
      prod_eq_iff)

section \<open>What holds of the loop, of the truthiness and of \<open>Run\<close>\<close>

text \<open>When \<^verbatim>\<open>runTaskLoop\<close> returns no error, \<open>Vars\<close> holds neither the loop variable nor
  \<^verbatim>\<open>loop_index\<close>, whatever it held before.\<close>

lemma runTaskLoop_success_removes_loop_variables:
  assumes "runTaskLoop R e pctx task = ((res, None), task1, pctx1)"
  shows "map_of (Vars pctx1) (GetLoopVar task) = None \<and> map_of (Vars pctx1) ''loop_index'' = None"
  using assms
  by (auto simp: runTaskLoop_def Let_def delete_conv' split: prod.splits sum.splits)

lemma runTaskLoop_success_removes_loop_variables_witness:
  "snd (fst (runTaskLoop steady noDryRun freshContext loopTask)) = None \<and>
   map_of (Vars (snd (snd (runTaskLoop steady noDryRun freshContext loopTask)))) ''item'' = None \<and>
   map_of (Vars (snd (snd (runTaskLoop steady noDryRun freshContext loopTask)))) ''loop_index'' =
     None"
proof -
  have n: "snd (fst (runTaskLoop steady noDryRun freshContext loopTask)) = None"
    and v: "GetLoopVar loopTask = ''item''"
    by code_simp+
  from n have "runTaskLoop steady noDryRun freshContext loopTask =
      ((fst (fst (runTaskLoop steady noDryRun freshContext loopTask)), None),
       fst (snd (runTaskLoop steady noDryRun freshContext loopTask)),
       snd (snd (runTaskLoop steady noDryRun freshContext loopTask)))"
    by (simp add: prod_eq_iff)
  from runTaskLoop_success_removes_loop_variables [OF this] n v show ?thesis by simp
qed

text \<open>Apart from the zero of \<^verbatim>\<open>int64\<close> and of \<^verbatim>\<open>float64\<close>, \<^verbatim>\<open>isTruthy\<close> is as the
  specification has it.\<close>

lemma isTruthy_cases:
  "\<not> isTruthy VNil \<and> isTruthy (VBool b) = b \<and>
   isTruthy (VStr s) = (s \<notin> {[], ''false'', ''False'', ''no''}) \<and>
   isTruthy (VInt n) = (n \<noteq> 0) \<and>
   isTruthy (VList xs) = (xs \<noteq> []) \<and> isTruthy (VMap m) = (m \<noteq> []) \<and>
   isTruthy (VStrMap sm) \<and> isTruthy (VOther d)"
  by simp

text \<open>\<^verbatim>\<open>resolveValue\<close> panics for a lone quote character only, and a condition is all
  that can make a run panic: for a playbook whose tasks have no such operand in their
  \<^verbatim>\<open>when\<close>, \<^verbatim>\<open>Run\<close> returns, and the error it returns is \<^verbatim>\<open>nil\<close>.\<close>

lemma quoted_short:
  "(quoted s \<and> length s - 1 < 1) = (s = [CHR 0x27] \<or> s = [CHR 0x22])"
proof (cases s)
  case Nil
  then show ?thesis by (simp add: quoted_def HasPrefix_def)
next
  case (Cons c cs)
  then show ?thesis by (cases cs) (auto simp: quoted_def HasPrefix_def HasSuffix_def)
qed

lemma resolveValue_Panic: "(resolveValue pctx s = Panic) = loneQuote s"
proof -
  have "(resolveValue pctx s = Panic) = (quoted (TrimSpace s) \<and> length (TrimSpace s) - 1 < 1)"
    by (auto simp: resolveValue_def Let_def split: option.splits)
  then show ?thesis by (simp only: quoted_short loneQuote_def)
qed

lemma compareSides_Panic: "(compareSides L pctx c sep = Panic) = sidePanics c sep"
  by (auto simp: compareSides_def sidePanics_def Let_def resolveValue_Panic [of pctx, symmetric]
      split: go.splits)

lemma evaluateCondition_Panic: "(evaluateCondition L pctx c = Panic) = condPanics c"
proof (induction c rule: condPanics.induct)
  case (1 c0)
  let ?c = "TrimSpace c0"
  show ?case
  proof (cases "HasPrefix ?c ''not ''")
    case True
    from "1.IH" [OF refl True]
    have "(evaluateCondition L pctx (drop 4 ?c) = Panic) = condPanics (drop 4 ?c)" .
    with True show ?thesis
      by (subst evaluateCondition.simps, subst condPanics.simps)
        (auto simp: Let_def split: go.splits)
  next
    case False
    then show ?thesis
      by (subst evaluateCondition.simps, subst condPanics.simps)
        (auto simp: Let_def compareSides_Panic [of L pctx, symmetric]
          resolveValue_Panic [of pctx, symmetric] split: go.splits)
  qed
qed

lemma evaluateCondition_no_error:
  "evaluateCondition L pctx c = Return (b, err) \<Longrightarrow> err = None"
proof (induction c arbitrary: b err rule: condPanics.induct)
  case (1 c0)
  let ?c = "TrimSpace c0"
  show ?case
  proof (cases "HasPrefix ?c ''not ''")
    case True
    with "1.prems" obtain b1 where "evaluateCondition L pctx (drop 4 ?c) = Return (b1, err)"
      by (subst (asm) evaluateCondition.simps) (auto simp: Let_def split: go.splits)
    from "1.IH" [OF refl True this] show ?thesis .
  next
    case False
    with "1.prems" show ?thesis
      by (subst (asm) evaluateCondition.simps) (auto simp: Let_def split: go.splits if_splits)
  qed
qed

lemma runTask_returns:
  assumes "\<not> condPanics (When task)"
  shows "runTask R e pctx task \<noteq> Panic"
proof -
  let ?c = "if When task \<noteq> [] then evaluateCondition (lib R) pctx (When task)
            else Return (True, None)"
  have "?c \<noteq> Panic"
    using assms by (simp add: evaluateCondition_Panic)
  then obtain b err where c: "?c = Return (b, err)"
    by (metis go.exhaust prod.exhaust)
  show ?thesis
    unfolding runTask_def c by (cases err) simp_all
qed

lemma tasksFrom_returns:
  "\<forall>task\<in>set tasks. \<not> condPanics (When task) \<Longrightarrow> tasksFrom R e tasks pctx \<noteq> Panic"
proof (induction tasks arbitrary: pctx)
  case Nil
  then show ?case by simp
next
  case (Cons task tasks)
  let ?p = "pctx\<lparr>stats := (stats pctx)\<lparr>StatTasks := StatTasks (stats pctx) + 1\<rparr>\<rparr>"
  from Cons.prems have "runTask R e ?p task \<noteq> Panic"
    by (simp add: runTask_returns)
  then obtain res err task1 p2 where out: "runTask R e ?p task = Return ((res, err), task1, p2)"
    by (metis go.exhaust prod.exhaust)
  from Cons.prems have rest: "tasksFrom R e tasks q \<noteq> Panic" for q
    using Cons.IH by simp
  show ?case
    using out rest by (cases err) (simp_all add: Let_def)
qed

lemma runPlay_returns:
  assumes "\<forall>task\<in>set (Tasks play). \<not> condPanics (When task)"
  shows "runPlay R e play before \<noteq> Panic"
proof -
  have t: "tasksFrom R e (Tasks play) q \<noteq> Panic" for q
    using assms by (rule tasksFrom_returns)
  show ?thesis
    unfolding runPlay_def Let_def
    using t by (auto split: option.splits sum.splits go.splits prod.splits)
qed

lemma playsFrom_returns:
  "\<forall>play\<in>set plays. \<forall>task\<in>set (Tasks play). \<not> condPanics (When task) \<Longrightarrow>
   playsFrom R e plays before \<noteq> Panic"
proof (induction plays arbitrary: before)
  case Nil
  then show ?case by simp
next
  case (Cons play plays)
  from Cons.prems have "runPlay R e play before \<noteq> Panic"
    by (simp add: runPlay_returns)
  then obtain err p where out: "runPlay R e play before = Return (err, p)"
    by (metis go.exhaust prod.exhaust)
  from Cons.prems have rest: "playsFrom R e plays q \<noteq> Panic" for q
    using Cons.IH by simp
  show ?case using out rest by (cases err) simp_all
qed

lemma Run_returns:
  assumes "\<forall>play\<in>set (Plays pb). \<forall>task\<in>set (Tasks play). \<not> condPanics (When task)"
  shows "\<exists>res tr. Run R e pb = Return ((res, None), tr)"
proof -
  from playsFrom_returns [OF assms]
  have "playsFrom R e (Plays pb) (startOfRun pb) \<noteq> Panic" .
  then obtain ok p where "playsFrom R e (Plays pb) (startOfRun pb) = Return (ok, p)"
    by (metis go.exhaust prod.exhaust)
  then show ?thesis by (simp add: Run_def)
qed

lemma Run_returns_witness:
  "list_all (\<lambda>play. list_all (\<lambda>task. \<not> condPanics (When task)) (Tasks play))
     (Plays handlerPlaybook) \<and>
   (\<exists>res tr. Run steady noDryRun handlerPlaybook = Return ((res, None), tr))"
proof -
  have safe: "list_all (\<lambda>play. list_all (\<lambda>task. \<not> condPanics (When task)) (Tasks play))
     (Plays handlerPlaybook)"
    by code_simp
  then have "\<forall>play\<in>set (Plays handlerPlaybook). \<forall>task\<in>set (Tasks play).
      \<not> condPanics (When task)"
    by (simp add: list_all_iff)
  from Run_returns [OF this] safe show ?thesis by blast
qed

text \<open>The run of that playbook: both tasks change something, then the handler \<open>A\<close> runs
  and then the handler \<open>B\<close>, each once.\<close>

lemma Run_handlerPlaybook:
  "(case Run steady noDryRun handlerPlaybook of
      Return ((res, err), tr) \<Rightarrow>
        (Success res, err, started tr, StatTasks (RunStats res), StatChanged (RunStats res))
    | Panic \<Rightarrow> (False, None, [], 0, 0)) =
   (True, None, [firstTask, secondTask, handlerA, handlerB], 4, 4)"
  by code_simp

text \<open>Whenever \<^verbatim>\<open>Run\<close> returns, the error it returns is \<^verbatim>\<open>nil\<close>; a play that fails makes
  the run a failure and ends it.\<close>

lemma Run_error_is_nil:
  "Run R e pb = Return ((res, err), tr) \<Longrightarrow> err = None"
  by (auto simp: Run_def split: go.splits prod.splits)

lemma playsFrom_failed_play:
  "runPlay R e play before = Return (Some err, pctx) \<Longrightarrow>
   playsFrom R e (play # rest) before = Return (False, pctx)"
  by simp

end
